theory Spec2Isabelle
  imports Complex_Main "HOL-Library.Multiset"
begin

section \<open>SimExchange: order books, matching and the simulation cycle\<close>

text \<open>
  The repository holds two implementations of the exchange: the flat modules
  (\<^verbatim>\<open>order_book.py\<close>, \<^verbatim>\<open>simulator.py\<close>, \<^verbatim>\<open>trading_agent.py\<close>) and the package
  \<^verbatim>\<open>simexchange\<close> (\<^verbatim>\<open>core/models\<close>, \<^verbatim>\<open>core/services\<close>). Both are embedded
  here. Python floats (prices, balances) are read as real numbers, Python ints as
  \<open>int\<close>; the wall-clock stamp \<^verbatim>\<open>time.time()\<close> that a trade receives is left out of
  the trade record, the stamp of an order is a field the caller supplies. A method is a
  function from the state of its object to its result and the state after the call; a
  raised exception is a result \<open>Inl\<close>. Where two classes share the name of a field or
  a method, or a name is taken in HOL (\<^verbatim>\<open>id\<close>), the name carries a prefix.
\<close>

subsection \<open>Data model (\<^verbatim>\<open>order_book.py\<close>, \<^verbatim>\<open>core/models/order.py\<close>, \<^verbatim>\<open>core/models/trade.py\<close>)\<close>

datatype OrderType = BUY | SELL

record Order =
  order_id :: int
  price :: real
  quantity :: int
  order_type :: OrderType
  agent_id :: int
  timestamp :: real

record Trade =
  trade_id :: int
  trade_price :: real
  trade_quantity :: int
  buyer_id :: int
  seller_id :: int

datatype error = ValueError | ZeroDivisionError

record OrderBook =
  initial_price :: real
  current_price :: real
  buy_orders :: "Order list"
  sell_orders :: "Order list"
  trades :: "Trade list"
  next_order_id :: int
  next_trade_id :: int

text \<open>\<^verbatim>\<open>OrderBook.__init__\<close>.\<close>

definition OrderBook_init :: "real \<Rightarrow> OrderBook" where
  "OrderBook_init p =
     \<lparr>initial_price = p, current_price = p, buy_orders = [], sell_orders = [],
      trades = [], next_order_id = 1, next_trade_id = 1\<rparr>"

subsection \<open>\<^verbatim>\<open>OrderBook.add_order\<close> (\<^verbatim>\<open>order_book.py\<close>)\<close>

text \<open>
  The state of one \<^verbatim>\<open>for i, sell_order in enumerate(self.sell_orders)\<close> loop: the
  local variables \<^verbatim>\<open>remaining_quantity\<close>, \<^verbatim>\<open>orders_to_remove\<close>, \<^verbatim>\<open>new_trades\<close> and
  the book, whose resting orders are updated in place.
\<close>

record 'b scan =
  remaining_quantity :: int
  orders_to_remove :: "nat list"
  new_trades :: "Trade list"
  book :: 'b

text \<open>
  The BUY loop from index \<open>i\<close> with \<open>n\<close> elements still to visit. A visited order
  that does not cross is skipped; the loop breaks when nothing remains.
\<close>

fun buy_loop :: "Order \<Rightarrow> nat \<Rightarrow> nat \<Rightarrow> OrderBook scan \<Rightarrow> OrderBook scan" where
  "buy_loop order i 0 st = st"
| "buy_loop order i (Suc n) st =
     (let b = book st; sell_order = sell_orders b ! i in
      if price sell_order \<le> price order \<and> remaining_quantity st > 0 then
        (let trade_qty = min (remaining_quantity st) (quantity sell_order);
             trade = \<lparr>trade_id = next_trade_id b, trade_price = price sell_order,
                      trade_quantity = trade_qty, buyer_id = agent_id order,
                      seller_id = agent_id sell_order\<rparr>;
             sell_order' = sell_order\<lparr>quantity := quantity sell_order - trade_qty\<rparr>;
             b' = b\<lparr>trades := trades b @ [trade],
                    next_trade_id := next_trade_id b + 1,
                    current_price := price sell_order,
                    sell_orders := (sell_orders b)[i := sell_order']\<rparr>;
             st' = st\<lparr>remaining_quantity := remaining_quantity st - trade_qty,
                      orders_to_remove :=
                        (if quantity sell_order' = 0 then orders_to_remove st @ [i]
                         else orders_to_remove st),
                      new_trades := new_trades st @ [trade],
                      book := b'\<rparr>
         in if remaining_quantity st' = 0 then st' else buy_loop order (Suc i) n st')
      else buy_loop order (Suc i) n st)"

text \<open>The SELL loop over \<^verbatim>\<open>self.buy_orders\<close>.\<close>

fun sell_loop :: "Order \<Rightarrow> nat \<Rightarrow> nat \<Rightarrow> OrderBook scan \<Rightarrow> OrderBook scan" where
  "sell_loop order i 0 st = st"
| "sell_loop order i (Suc n) st =
     (let b = book st; buy_order = buy_orders b ! i in
      if price buy_order \<ge> price order \<and> remaining_quantity st > 0 then
        (let trade_qty = min (remaining_quantity st) (quantity buy_order);
             trade = \<lparr>trade_id = next_trade_id b, trade_price = price buy_order,
                      trade_quantity = trade_qty, buyer_id = agent_id buy_order,
                      seller_id = agent_id order\<rparr>;
             buy_order' = buy_order\<lparr>quantity := quantity buy_order - trade_qty\<rparr>;
             b' = b\<lparr>trades := trades b @ [trade],
                    next_trade_id := next_trade_id b + 1,
                    current_price := price buy_order,
                    buy_orders := (buy_orders b)[i := buy_order']\<rparr>;
             st' = st\<lparr>remaining_quantity := remaining_quantity st - trade_qty,
                      orders_to_remove :=
                        (if quantity buy_order' = 0 then orders_to_remove st @ [i]
                         else orders_to_remove st),
                      new_trades := new_trades st @ [trade],
                      book := b'\<rparr>
         in if remaining_quantity st' = 0 then st' else sell_loop order (Suc i) n st')
      else sell_loop order (Suc i) n st)"

text \<open>\<^verbatim>\<open>list.pop(i)\<close> for an index in range, and
  \<^verbatim>\<open>for i in reversed(orders_to_remove): xs.pop(i)\<close>.\<close>

definition pop :: "nat \<Rightarrow> 'a list \<Rightarrow> 'a list" where
  "pop i xs = take i xs @ drop (Suc i) xs"

definition remove_orders :: "nat list \<Rightarrow> 'a list \<Rightarrow> 'a list" where
  "remove_orders idxs xs = fold pop (rev idxs) xs"

text \<open>
  \<^verbatim>\<open>xs.sort(key=lambda x: x.price)\<close> and the same with \<^verbatim>\<open>reverse=True\<close>: Python's
  sort is stable in both directions, as \<open>sort_key\<close> is.
\<close>

definition sort_by_price :: "Order list \<Rightarrow> Order list" where
  "sort_by_price xs = sort_key price xs"

definition sort_by_price_reverse :: "Order list \<Rightarrow> Order list" where
  "sort_by_price_reverse xs = sort_key (\<lambda>x. - price x) xs"

definition OrderBook_add_order :: "OrderBook \<Rightarrow> Order \<Rightarrow> Trade list \<times> OrderBook" where
  "OrderBook_add_order b order =
     (if order_type order = BUY then
        (let st = buy_loop order 0 (length (sell_orders b))
                    \<lparr>remaining_quantity = quantity order, orders_to_remove = [],
                     new_trades = [], book = b\<rparr>;
             b1 = (book st)\<lparr>sell_orders :=
                     remove_orders (orders_to_remove st) (sell_orders (book st))\<rparr>;
             b2 = (if remaining_quantity st > 0 then
                     b1\<lparr>buy_orders := sort_by_price_reverse
                           (buy_orders b1 @ [order\<lparr>quantity := remaining_quantity st\<rparr>])\<rparr>
                   else b1)
         in (new_trades st, b2))
      else
        (let st = sell_loop order 0 (length (buy_orders b))
                    \<lparr>remaining_quantity = quantity order, orders_to_remove = [],
                     new_trades = [], book = b\<rparr>;
             b1 = (book st)\<lparr>buy_orders :=
                     remove_orders (orders_to_remove st) (buy_orders (book st))\<rparr>;
             b2 = (if remaining_quantity st > 0 then
                     b1\<lparr>sell_orders := sort_by_price
                           (sell_orders b1 @ [order\<lparr>quantity := remaining_quantity st\<rparr>])\<rparr>
                   else b1)
         in (new_trades st, b2)))"

subsection \<open>Construction checks (\<^verbatim>\<open>Order.__post_init__\<close>, \<^verbatim>\<open>Trade.__post_init__\<close>)\<close>

text \<open>
  The dataclasses of the package raise \<^verbatim>\<open>ValueError\<close> from \<^verbatim>\<open>__post_init__\<close>; the
  classes of \<^verbatim>\<open>order_book.py\<close> have no such check.
\<close>

definition Order_init :: "int \<Rightarrow> real \<Rightarrow> int \<Rightarrow> OrderType \<Rightarrow> int \<Rightarrow> real \<Rightarrow> error + Order" where
  "Order_init i p q t a ts =
     (if p \<le> 0 then Inl ValueError
      else if q \<le> 0 then Inl ValueError
      else if a < 0 then Inl ValueError
      else Inr \<lparr>order_id = i, price = p, quantity = q, order_type = t, agent_id = a,
                 timestamp = ts\<rparr>)"

definition Trade_init :: "int \<Rightarrow> real \<Rightarrow> int \<Rightarrow> int \<Rightarrow> int \<Rightarrow> error + Trade" where
  "Trade_init i p q b s =
     (if p \<le> 0 then Inl ValueError
      else if q \<le> 0 then Inl ValueError
      else if b < 0 then Inl ValueError
      else if s < 0 then Inl ValueError
      else Inr \<lparr>trade_id = i, trade_price = p, trade_quantity = q, buyer_id = b,
                 seller_id = s\<rparr>)"

definition is_buy :: "Order \<Rightarrow> bool" where
  "is_buy order = (order_type order = BUY)"

definition is_sell :: "Order \<Rightarrow> bool" where
  "is_sell order = (order_type order = SELL)"

text \<open>\<^verbatim>\<open>Trade.create_from_orders\<close>: the price of the trade is the price of the sell order.\<close>

definition create_from_orders :: "int \<Rightarrow> Order \<Rightarrow> Order \<Rightarrow> int \<Rightarrow> error + Trade" where
  "create_from_orders tid buy_order sell_order qty =
     (if \<not> is_buy buy_order then Inl ValueError
      else if \<not> is_sell sell_order then Inl ValueError
      else if qty \<le> 0 then Inl ValueError
      else if qty > min (quantity buy_order) (quantity sell_order) then Inl ValueError
      else Trade_init tid (price sell_order) qty (agent_id buy_order) (agent_id sell_order))"

subsection \<open>\<^verbatim>\<open>OrderBookService\<close> (\<^verbatim>\<open>core/services/order_book_service.py\<close>)\<close>

record OrderBookService = OrderBook +
  max_trades_history :: int

definition OrderBookService_init :: "real \<Rightarrow> int \<Rightarrow> OrderBookService" where
  "OrderBookService_init p m =
     \<lparr>initial_price = p, current_price = p, buy_orders = [], sell_orders = [],
      trades = [], next_order_id = 1, next_trade_id = 1, max_trades_history = m\<rparr>"

text \<open>The slice \<^verbatim>\<open>xs[-n:]\<close>; for \<^verbatim>\<open>n = 0\<close> it is the whole list.\<close>

definition slice_last :: "int \<Rightarrow> 'a list \<Rightarrow> 'a list" where
  "slice_last n xs =
     (if n > 0 then drop (length xs - nat n) xs else drop (nat (- n)) xs)"

text \<open>
  The loop of \<^verbatim>\<open>_process_buy_order\<close>. An exception of \<^verbatim>\<open>create_from_orders\<close>
  leaves the loop with the state reached so far: the result is \<open>(Some e, st)\<close>.
\<close>

fun process_buy_loop ::
  "Order \<Rightarrow> nat \<Rightarrow> nat \<Rightarrow> OrderBookService scan \<Rightarrow> error option \<times> OrderBookService scan" where
  "process_buy_loop order i 0 st = (None, st)"
| "process_buy_loop order i (Suc n) st =
     (let b = book st; sell_order = sell_orders b ! i in
      if price sell_order \<le> price order \<and> remaining_quantity st > 0 then
        (let trade_qty = min (remaining_quantity st) (quantity sell_order) in
         case create_from_orders (next_trade_id b) order sell_order trade_qty of
           Inl e \<Rightarrow> (Some e, st)
         | Inr trade \<Rightarrow>
             (let ts = trades b @ [trade];
                  ts' = (if int (length ts) > max_trades_history b
                         then slice_last (max_trades_history b) ts else ts);
                  sell_order' = sell_order\<lparr>quantity := quantity sell_order - trade_qty\<rparr>;
                  b' = b\<lparr>trades := ts',
                         next_trade_id := next_trade_id b + 1,
                         sell_orders := (sell_orders b)[i := sell_order']\<rparr>;
                  st' = st\<lparr>remaining_quantity := remaining_quantity st - trade_qty,
                           orders_to_remove :=
                             (if quantity sell_order' = 0 then orders_to_remove st @ [i]
                              else orders_to_remove st),
                           new_trades := new_trades st @ [trade],
                           book := b'\<rparr>
              in if remaining_quantity st' = 0 then (None, st')
                 else process_buy_loop order (Suc i) n st'))
      else process_buy_loop order (Suc i) n st)"

text \<open>
  The loop of \<^verbatim>\<open>_process_sell_order\<close>: the resting buy order is the first argument of
  \<^verbatim>\<open>create_from_orders\<close>, the incoming order the second.
\<close>

fun process_sell_loop ::
  "Order \<Rightarrow> nat \<Rightarrow> nat \<Rightarrow> OrderBookService scan \<Rightarrow> error option \<times> OrderBookService scan" where
  "process_sell_loop order i 0 st = (None, st)"
| "process_sell_loop order i (Suc n) st =
     (let b = book st; buy_order = buy_orders b ! i in
      if price buy_order \<ge> price order \<and> remaining_quantity st > 0 then
        (let trade_qty = min (remaining_quantity st) (quantity buy_order) in
         case create_from_orders (next_trade_id b) buy_order order trade_qty of
           Inl e \<Rightarrow> (Some e, st)
         | Inr trade \<Rightarrow>
             (let ts = trades b @ [trade];
                  ts' = (if int (length ts) > max_trades_history b
                         then slice_last (max_trades_history b) ts else ts);
                  buy_order' = buy_order\<lparr>quantity := quantity buy_order - trade_qty\<rparr>;
                  b' = b\<lparr>trades := ts',
                         next_trade_id := next_trade_id b + 1,
                         buy_orders := (buy_orders b)[i := buy_order']\<rparr>;
                  st' = st\<lparr>remaining_quantity := remaining_quantity st - trade_qty,
                           orders_to_remove :=
                             (if quantity buy_order' = 0 then orders_to_remove st @ [i]
                              else orders_to_remove st),
                           new_trades := new_trades st @ [trade],
                           book := b'\<rparr>
              in if remaining_quantity st' = 0 then (None, st')
                 else process_sell_loop order (Suc i) n st'))
      else process_sell_loop order (Suc i) n st)"

text \<open>\<^verbatim>\<open>_insert_buy_order\<close> and \<^verbatim>\<open>_insert_sell_order\<close>: before the first resting order with
  a strictly worse price, else at the end.\<close>

fun insert_buy_order :: "Order \<Rightarrow> Order list \<Rightarrow> Order list" where
  "insert_buy_order order [] = [order]"
| "insert_buy_order order (existing_order # rest) =
     (if price order > price existing_order then order # existing_order # rest
      else existing_order # insert_buy_order order rest)"

fun insert_sell_order :: "Order \<Rightarrow> Order list \<Rightarrow> Order list" where
  "insert_sell_order order [] = [order]"
| "insert_sell_order order (existing_order # rest) =
     (if price order < price existing_order then order # existing_order # rest
      else existing_order # insert_sell_order order rest)"

definition process_buy_order ::
  "OrderBookService \<Rightarrow> Order \<Rightarrow> (error + Trade list) \<times> OrderBookService" where
  "process_buy_order b order =
     (case process_buy_loop order 0 (length (sell_orders b))
             \<lparr>remaining_quantity = quantity order, orders_to_remove = [],
              new_trades = [], book = b\<rparr> of
        (Some e, st) \<Rightarrow> (Inl e, book st)
      | (None, st) \<Rightarrow>
          (let b1 = (book st)\<lparr>sell_orders :=
                      remove_orders (orders_to_remove st) (sell_orders (book st))\<rparr>;
               b2 = (if remaining_quantity st > 0 then
                       b1\<lparr>buy_orders := insert_buy_order
                             (order\<lparr>quantity := remaining_quantity st\<rparr>) (buy_orders b1)\<rparr>
                     else b1)
           in (Inr (new_trades st), b2)))"

definition process_sell_order ::
  "OrderBookService \<Rightarrow> Order \<Rightarrow> (error + Trade list) \<times> OrderBookService" where
  "process_sell_order b order =
     (case process_sell_loop order 0 (length (buy_orders b))
             \<lparr>remaining_quantity = quantity order, orders_to_remove = [],
              new_trades = [], book = b\<rparr> of
        (Some e, st) \<Rightarrow> (Inl e, book st)
      | (None, st) \<Rightarrow>
          (let b1 = (book st)\<lparr>buy_orders :=
                      remove_orders (orders_to_remove st) (buy_orders (book st))\<rparr>;
               b2 = (if remaining_quantity st > 0 then
                       b1\<lparr>sell_orders := insert_sell_order
                             (order\<lparr>quantity := remaining_quantity st\<rparr>) (sell_orders b1)\<rparr>
                     else b1)
           in (Inr (new_trades st), b2)))"

text \<open>\<^verbatim>\<open>OrderBookService.add_order\<close>: the current price follows the last new trade.\<close>

definition OrderBookService_add_order ::
  "OrderBookService \<Rightarrow> Order \<Rightarrow> (error + Trade list) \<times> OrderBookService" where
  "OrderBookService_add_order b order =
     (case (if order_type order = BUY then process_buy_order b order
            else process_sell_order b order) of
        (Inl e, b') \<Rightarrow> (Inl e, b')
      | (Inr trs, b') \<Rightarrow>
          (Inr trs, if trs \<noteq> [] then b'\<lparr>current_price := trade_price (last trs)\<rparr> else b'))"

subsection \<open>Queries (\<^verbatim>\<open>get_best_bid\<close>, \<^verbatim>\<open>get_best_ask\<close>, \<^verbatim>\<open>get_spread\<close>,
  \<^verbatim>\<open>get_order_book_data\<close>)\<close>

text \<open>
  Like \<^verbatim>\<open>add_order\<close>, a query is a function from the book to its result and the book
  after the call. The first three are the same in \<^verbatim>\<open>OrderBook\<close> and
  \<^verbatim>\<open>OrderBookService\<close>.
\<close>

definition get_best_bid :: "'a OrderBook_scheme \<Rightarrow> real option \<times> 'a OrderBook_scheme" where
  "get_best_bid b = ((case buy_orders b of [] \<Rightarrow> None | x # _ \<Rightarrow> Some (price x)), b)"

definition get_best_ask :: "'a OrderBook_scheme \<Rightarrow> real option \<times> 'a OrderBook_scheme" where
  "get_best_ask b = ((case sell_orders b of [] \<Rightarrow> None | x # _ \<Rightarrow> Some (price x)), b)"

text \<open>\<^verbatim>\<open>if best_bid and best_ask\<close>: \<^verbatim>\<open>None\<close> and \<^verbatim>\<open>0.0\<close> are both false.\<close>

definition truthy :: "real option \<Rightarrow> bool" where
  "truthy v = (case v of None \<Rightarrow> False | Some x \<Rightarrow> x \<noteq> 0)"

definition get_spread :: "'a OrderBook_scheme \<Rightarrow> real option \<times> 'a OrderBook_scheme" where
  "get_spread b =
     (let (best_bid, b1) = get_best_bid b;
          (best_ask, b2) = get_best_ask b1
      in (if truthy best_bid \<and> truthy best_ask then Some (the best_ask - the best_bid)
          else None, b2))"

text \<open>The slice \<^verbatim>\<open>xs[:levels]\<close>; a negative \<^verbatim>\<open>levels\<close> counts from the end.\<close>

definition slice_first :: "int \<Rightarrow> 'a list \<Rightarrow> 'a list" where
  "slice_first n xs =
     (if n \<ge> 0 then take (nat n) xs else take (length xs - nat (- n)) xs)"

record level =
  level_price :: real
  level_quantity :: int
  level_agent_id :: int

record order_book_data =
  data_buy_levels :: "level list"
  data_sell_levels :: "level list"
  data_current_price :: real
  data_best_bid :: "real option"
  data_best_ask :: "real option"
  data_spread :: "real option"
  data_total_trades :: nat

definition level_of :: "Order \<Rightarrow> level" where
  "level_of order =
     \<lparr>level_price = price order, level_quantity = quantity order,
      level_agent_id = agent_id order\<rparr>"

definition get_order_book_data :: "OrderBook \<Rightarrow> int \<Rightarrow> order_book_data \<times> OrderBook" where
  "get_order_book_data b levels =
     (let buy_levels' = map level_of (slice_first levels (buy_orders b));
          sell_levels' = map level_of (slice_first levels (sell_orders b));
          (best_bid', b1) = get_best_bid b;
          (best_ask', b2) = get_best_ask b1;
          (spread', b3) = get_spread b2
      in (\<lparr>data_buy_levels = buy_levels', data_sell_levels = sell_levels',
           data_current_price = current_price b, data_best_bid = best_bid', data_best_ask = best_ask',
           data_spread = spread', data_total_trades = length (trades b3)\<rparr>, b3))"

text \<open>In \<^verbatim>\<open>OrderBookService\<close> a level also has the time stamp, and the data the sizes of
  the two books.\<close>

record service_level = level +
  level_timestamp :: real

record service_order_book_data =
  service_buy_levels :: "service_level list"
  service_sell_levels :: "service_level list"
  service_current_price :: real
  service_best_bid :: "real option"
  service_best_ask :: "real option"
  service_spread :: "real option"
  service_total_trades :: nat
  total_buy_orders :: nat
  total_sell_orders :: nat

definition service_level_of :: "Order \<Rightarrow> service_level" where
  "service_level_of order =
     \<lparr>level_price = price order, level_quantity = quantity order,
      level_agent_id = agent_id order, level_timestamp = timestamp order\<rparr>"

definition OrderBookService_get_order_book_data ::
  "OrderBookService \<Rightarrow> int \<Rightarrow> service_order_book_data \<times> OrderBookService" where
  "OrderBookService_get_order_book_data b levels =
     (let buy_levels' = map service_level_of (slice_first levels (buy_orders b));
          sell_levels' = map service_level_of (slice_first levels (sell_orders b));
          (best_bid', b1) = get_best_bid b;
          (best_ask', b2) = get_best_ask b1;
          (spread', b3) = get_spread b2
      in (\<lparr>service_buy_levels = buy_levels', service_sell_levels = sell_levels',
           service_current_price = current_price b, service_best_bid = best_bid',
           service_best_ask = best_ask', service_spread = spread',
           service_total_trades = length (trades b3),
           total_buy_orders = length (buy_orders b3),
           total_sell_orders = length (sell_orders b3)\<rparr>, b3))"

subsection \<open>\<^verbatim>\<open>SimulationService\<close> (\<^verbatim>\<open>core/services/simulation_service.py\<close>)\<close>

text \<open>The fields of \<^verbatim>\<open>SimulationConfig\<close> that the functions below read or write.\<close>

record SimulationConfig =
  max_history_size :: int
  performance_mode :: bool
  skip_volatility_calculation :: bool
  balance_increase_cycles :: int
  balance_increase_amount :: real
  avg_spread_cycles :: int

record SimulationService =
  config :: SimulationConfig
  cycle :: int
  price_history :: "real list"
  volume_history :: "int list"
  trade_count_history :: "int list"
  spread_history :: "real list"
  last_balance_increase_cycle :: int

text \<open>
  \<^verbatim>\<open>update_price\<close>, \<^verbatim>\<open>update_volume\<close>, \<^verbatim>\<open>update_trade_count\<close>, \<^verbatim>\<open>update_spread\<close>: append,
  then, when the buffer is longer than \<^verbatim>\<open>max_history_size\<close>, keep
  \<^verbatim>\<open>buffer[-keep_size:]\<close> with \<^verbatim>\<open>keep_size = max_history_size // 2\<close>.
\<close>

definition limit_history :: "int \<Rightarrow> 'a list \<Rightarrow> 'a list" where
  "limit_history cap xs =
     (if int (length xs) > cap then (let keep_size = cap div 2 in slice_last keep_size xs)
      else xs)"

definition update_price :: "SimulationService \<Rightarrow> real \<Rightarrow> SimulationService" where
  "update_price s new_price =
     s\<lparr>price_history :=
         limit_history (max_history_size (config s)) (price_history s @ [new_price])\<rparr>"

definition update_volume :: "SimulationService \<Rightarrow> int \<Rightarrow> SimulationService" where
  "update_volume s volume =
     s\<lparr>volume_history :=
         limit_history (max_history_size (config s)) (volume_history s @ [volume])\<rparr>"

definition update_trade_count :: "SimulationService \<Rightarrow> int \<Rightarrow> SimulationService" where
  "update_trade_count s count' =
     s\<lparr>trade_count_history :=
         limit_history (max_history_size (config s)) (trade_count_history s @ [count'])\<rparr>"

definition update_spread :: "SimulationService \<Rightarrow> real \<Rightarrow> SimulationService" where
  "update_spread s spread =
     s\<lparr>spread_history :=
         limit_history (max_history_size (config s)) (spread_history s @ [spread])\<rparr>"

text \<open>
  The loop \<^verbatim>\<open>for i in range(1, len(recent_prices))\<close> of \<^verbatim>\<open>calculate_volatility\<close>;
  a float division by zero raises \<^verbatim>\<open>ZeroDivisionError\<close>.
\<close>

fun price_changes :: "real list \<Rightarrow> error + real list" where
  "price_changes (a # b # rest) =
     (if a = 0 then Inl ZeroDivisionError
      else case price_changes (b # rest) of
             Inl e \<Rightarrow> Inl e
           | Inr cs \<Rightarrow> Inr ((b - a) / a # cs))"
| "price_changes rest = Inr []"

definition calculate_volatility :: "SimulationService \<Rightarrow> error + real" where
  "calculate_volatility s =
     (if length (price_history s) < 2 then Inr 0.01
      else if skip_volatility_calculation (config s) then Inr 0.01
      else
        (let recent_prices = slice_last 5 (price_history s) in
         if length recent_prices < 2 then Inr 0.01
         else case price_changes recent_prices of
                Inl e \<Rightarrow> Inl e
              | Inr changes \<Rightarrow>
                  if changes = [] then Inr 0.01
                  else
                    (let avg_change = sum_list (map abs changes) / real (length changes);
                         volatility = min (avg_change * 2) 0.05
                     in Inr (max 0.005 volatility))))"

subsection \<open>The coordinator \<^verbatim>\<open>TradingSimulator\<close> of the package
  (\<^verbatim>\<open>core/services/trading_simulator.py\<close>)\<close>

text \<open>
  \<^verbatim>\<open>TradingSimulator.config\<close> and \<^verbatim>\<open>SimulationService.config\<close> are one object: a
  write through the coordinator is seen by the service, so the setters below store the
  new configuration in both fields.
\<close>

record Coordinator =
  coordinator_config :: SimulationConfig
  simulation_service :: SimulationService
  order_book_service :: OrderBookService

definition store_config :: "Coordinator \<Rightarrow> SimulationConfig \<Rightarrow> Coordinator" where
  "store_config t c =
     t\<lparr>coordinator_config := c, simulation_service := (simulation_service t)\<lparr>config := c\<rparr>\<rparr>"

definition set_balance_increase_settings :: "Coordinator \<Rightarrow> int \<Rightarrow> real \<Rightarrow> Coordinator" where
  "set_balance_increase_settings t cycles amount =
     store_config t ((coordinator_config t)
       \<lparr>balance_increase_cycles := max 1 (min cycles 10000),
        balance_increase_amount := max 0 amount\<rparr>)"

definition set_avg_spread_cycles :: "Coordinator \<Rightarrow> int \<Rightarrow> Coordinator" where
  "set_avg_spread_cycles t cycles =
     store_config t ((coordinator_config t)\<lparr>avg_spread_cycles := max 1 (min cycles 1000)\<rparr>)"

subsection \<open>\<^verbatim>\<open>Agent\<close> (\<^verbatim>\<open>trading_agent.py\<close>)\<close>

text \<open>
  The ledger and the counters of an agent. The strategy object and the randomly drawn
  behaviour parameters decide which order an agent produces; that decision is an input
  of the model (see \<open>generate_order\<close>).
\<close>

record Agent =
  ident :: int
  balance :: real
  position :: int
  buy_orders_count :: int
  sell_orders_count :: int
  total_orders_count :: int

definition update_after_trade :: "Agent \<Rightarrow> real \<Rightarrow> int \<Rightarrow> bool \<Rightarrow> Agent" where
  "update_after_trade a trade_price' trade_quantity' is_buyer =
     (if is_buyer then
        a\<lparr>balance := balance a - trade_price' * real_of_int trade_quantity',
          position := position a + trade_quantity'\<rparr>
      else
        a\<lparr>balance := balance a + trade_price' * real_of_int trade_quantity',
          position := position a - trade_quantity'\<rparr>)"

text \<open>
  \<^verbatim>\<open>Agent.generate_order\<close>: \<open>intent\<close> is what \<^verbatim>\<open>should_trade\<close> and
  \<^verbatim>\<open>self.strategy.generate_order\<close> came up with (\<open>None\<close> for no order); the method then
  writes the agent's id into the order and bumps the counters. The wall-clock time it
  writes into \<^verbatim>\<open>order.timestamp\<close> is the time stamp the intent carries.
\<close>

definition generate_order :: "Agent \<Rightarrow> Order option \<Rightarrow> Order option \<times> Agent" where
  "generate_order a intent =
     (case intent of
        None \<Rightarrow> (None, a)
      | Some order \<Rightarrow>
          (Some (order\<lparr>agent_id := ident a\<rparr>),
           (if order_type order = BUY
            then a\<lparr>total_orders_count := total_orders_count a + 1,
                   buy_orders_count := buy_orders_count a + 1\<rparr>
            else a\<lparr>total_orders_count := total_orders_count a + 1,
                   sell_orders_count := sell_orders_count a + 1\<rparr>)))"

subsection \<open>\<^verbatim>\<open>TradingSimulator\<close> (\<^verbatim>\<open>simulator.py\<close>)\<close>

record TradingSimulator =
  order_book :: OrderBook
  agents :: "Agent list"
  sim_cycle :: int
  sim_price_history :: "real list"
  sim_volume_history :: "int list"
  sim_trade_count_history :: "int list"
  sim_spread_history :: "real list"
  sim_avg_spread_cycles :: int
  sim_balance_increase_cycles :: int
  sim_balance_increase_amount :: real
  sim_last_balance_increase_cycle :: int

text \<open>The body of \<^verbatim>\<open>for trade in trades\<close> in \<^verbatim>\<open>run_cycle\<close>, for the agent of the
  enclosing iteration.\<close>

definition apply_trade :: "Agent \<Rightarrow> Trade \<Rightarrow> Agent" where
  "apply_trade agent trade =
     (if buyer_id trade = ident agent
      then update_after_trade agent (trade_price trade) (trade_quantity trade) True
      else if seller_id trade = ident agent
      then update_after_trade agent (trade_price trade) (trade_quantity trade) False
      else agent)"

text \<open>
  The loop \<^verbatim>\<open>for agent in self.agents\<close> of \<^verbatim>\<open>run_cycle\<close>. \<open>intents\<close> lists, agent by
  agent, the order each strategy decides on; the result is the agents, the book and the
  trades of the cycle so far.
\<close>

fun agents_loop ::
  "Agent list \<Rightarrow> Order option list \<Rightarrow> OrderBook \<Rightarrow> Trade list \<Rightarrow> Agent list \<times> OrderBook \<times> Trade list" where
  "agents_loop [] intents ob new_trades' = ([], ob, new_trades')"
| "agents_loop (agent # rest) intents ob new_trades' =
     (case generate_order agent (case intents of [] \<Rightarrow> None | x # _ \<Rightarrow> x) of
        (None, agent') \<Rightarrow>
          (case agents_loop rest (tl intents) ob new_trades' of
             (rest', ob', nt) \<Rightarrow> (agent' # rest', ob', nt))
      | (Some order, agent') \<Rightarrow>
          (let order' = order\<lparr>order_id := next_order_id ob\<rparr>;
               ob1 = ob\<lparr>next_order_id := next_order_id ob + 1\<rparr>;
               (trades', ob2) = OrderBook_add_order ob1 order';
               agent'' = foldl apply_trade agent' trades'
           in case agents_loop rest (tl intents) ob2 (new_trades' @ trades') of
                (rest', ob', nt) \<Rightarrow> (agent'' # rest', ob', nt)))"

text \<open>\<^verbatim>\<open>_update_statistics\<close>: all four buffers are cut to their last
  \<^verbatim>\<open>max_history = 1000\<close> entries when the price history is longer than that.\<close>

definition update_statistics :: "TradingSimulator \<Rightarrow> Trade list \<Rightarrow> TradingSimulator" where
  "update_statistics s new_trades' =
     (let ph = sim_price_history s @ [current_price (order_book s)];
          vh = sim_volume_history s @ [sum_list (map trade_quantity new_trades')];
          th = sim_trade_count_history s @ [int (length new_trades')];
          (current_spread, ob) = get_spread (order_book s);
          sh = (case current_spread of
                  None \<Rightarrow> sim_spread_history s
                | Some d \<Rightarrow> sim_spread_history s @ [d]);
          max_history = 1000
      in if int (length ph) > max_history
         then s\<lparr>order_book := ob,
                sim_price_history := slice_last max_history ph,
                sim_volume_history := slice_last max_history vh,
                sim_trade_count_history := slice_last max_history th,
                sim_spread_history := slice_last max_history sh\<rparr>
         else s\<lparr>order_book := ob, sim_price_history := ph, sim_volume_history := vh,
                sim_trade_count_history := th, sim_spread_history := sh\<rparr>)"

text \<open>\<^verbatim>\<open>_calculate_volatility\<close>: the standard deviation of the returns over the last
  ten prices (\<^verbatim>\<open>variance ** 0.5\<close> is the square root).\<close>

definition sim_calculate_volatility :: "TradingSimulator \<Rightarrow> error + real" where
  "sim_calculate_volatility s =
     (if length (sim_price_history s) < 2 then Inr 0.01
      else
        (let recent_prices = slice_last 10 (sim_price_history s) in
         case price_changes recent_prices of
           Inl e \<Rightarrow> Inl e
         | Inr returns \<Rightarrow>
             if returns = [] then Inr 0.01
             else
               (let mean_return = sum_list returns / real (length returns);
                    variance = sum_list (map (\<lambda>r. (r - mean_return)\<^sup>2) returns)
                                 / real (length returns);
                    volatility = sqrt variance
                in Inr (max 0.005 (min 0.05 volatility)))))"

text \<open>The setters of \<^verbatim>\<open>simulator.py\<close>.\<close>

definition sim_set_avg_spread_cycles :: "TradingSimulator \<Rightarrow> int \<Rightarrow> TradingSimulator" where
  "sim_set_avg_spread_cycles s cycles = s\<lparr>sim_avg_spread_cycles := max 1 (min cycles 1000)\<rparr>"

definition sim_set_balance_increase_settings ::
  "TradingSimulator \<Rightarrow> int \<Rightarrow> real \<Rightarrow> TradingSimulator" where
  "sim_set_balance_increase_settings s cycles amount =
     s\<lparr>sim_balance_increase_cycles := max 1 (min cycles 10000),
       sim_balance_increase_amount := max 0 amount\<rparr>"

subsection \<open>The dialogs of the window (\<^verbatim>\<open>visualizer.py\<close>)\<close>

text \<open>
  \<^verbatim>\<open>_show_spread_cycles_dialog\<close> and \<^verbatim>\<open>_show_balance_increase_dialog\<close> read a text,
  parse it, check the range and only then call the setter. What the user typed is an
  input: nothing (dialog cancelled or empty text), a text that does not parse
  (\<^verbatim>\<open>ValueError\<close>, caught), or the parsed number. The messages printed on a refusal
  are the notices \<open>OutOfRange\<close> and \<open>BadFormat\<close>.
\<close>

datatype 'a entry = Nothing | Malformed | Parsed 'a

datatype notice = OutOfRange | BadFormat

definition show_spread_cycles_dialog ::
  "TradingSimulator \<Rightarrow> int entry \<Rightarrow> notice option \<times> TradingSimulator" where
  "show_spread_cycles_dialog s result =
     (case result of
        Nothing \<Rightarrow> (None, s)
      | Malformed \<Rightarrow> (Some BadFormat, s)
      | Parsed cycles \<Rightarrow>
          if 1 \<le> cycles \<and> cycles \<le> 1000 then (None, sim_set_avg_spread_cycles s cycles)
          else (Some OutOfRange, s))"

definition show_balance_increase_dialog ::
  "TradingSimulator \<Rightarrow> int entry \<Rightarrow> real entry \<Rightarrow> notice option \<times> TradingSimulator" where
  "show_balance_increase_dialog s cycles_result amount_result =
     (case cycles_result of
        Nothing \<Rightarrow> (None, s)
      | Malformed \<Rightarrow> (Some BadFormat, s)
      | Parsed cycles \<Rightarrow>
          if 1 \<le> cycles \<and> cycles \<le> 10000 then
            (case amount_result of
               Nothing \<Rightarrow> (None, s)
             | Malformed \<Rightarrow> (Some BadFormat, s)
             | Parsed amount \<Rightarrow>
                 if 0 \<le> amount \<and> amount \<le> 100000
                 then (None, sim_set_balance_increase_settings s cycles amount)
                 else (Some OutOfRange, s))
          else (Some OutOfRange, s))"

subsection \<open>Creating and submitting an order in the package
  (\<^verbatim>\<open>_generate_agent_order\<close>, \<^verbatim>\<open>run_cycle\<close> of \<^verbatim>\<open>trading_simulator.py\<close>)\<close>

text \<open>
  The end of \<^verbatim>\<open>_generate_agent_order\<close> builds \<^verbatim>\<open>Order(id=next_order_id, ...)\<close>, which
  may raise, and increments \<^verbatim>\<open>next_order_id\<close>; \<^verbatim>\<open>run_cycle\<close> then passes the order to
  \<^verbatim>\<open>add_order\<close>.
\<close>

definition create_and_add_order ::
  "OrderBookService \<Rightarrow> real \<Rightarrow> int \<Rightarrow> OrderType \<Rightarrow> int \<Rightarrow> real
     \<Rightarrow> (error + Trade list) \<times> OrderBookService" where
  "create_and_add_order b p q t a ts =
     (case Order_init (next_order_id b) p q t a ts of
        Inl e \<Rightarrow> (Inl e, b)
      | Inr order \<Rightarrow>
          OrderBookService_add_order (b\<lparr>next_order_id := next_order_id b + 1\<rparr>) order)"

subsection \<open>Named inputs of the examples\<close>

definition sell_99 :: Order where
  "sell_99 = \<lparr>order_id = 1, price = 99, quantity = 10, order_type = SELL, agent_id = 0,
              timestamp = 1\<rparr>"

definition sell_101 :: Order where
  "sell_101 = \<lparr>order_id = 2, price = 101, quantity = 10, order_type = SELL, agent_id = 1,
               timestamp = 2\<rparr>"

definition buy_100 :: Order where
  "buy_100 = \<lparr>order_id = 3, price = 100, quantity = 15, order_type = BUY, agent_id = 2,
              timestamp = 3\<rparr>"

definition sell_95 :: Order where
  "sell_95 = \<lparr>order_id = 4, price = 95, quantity = 10, order_type = SELL, agent_id = 0,
              timestamp = 4\<rparr>"

text \<open>The books after \<^verbatim>\<open>Sell 10@99\<close> and \<^verbatim>\<open>Sell 10@101\<close> on an empty book with initial
  price 100.\<close>

definition example_book :: OrderBook where
  "example_book =
     snd (OrderBook_add_order (snd (OrderBook_add_order (OrderBook_init 100) sell_99)) sell_101)"

definition example_service :: OrderBookService where
  "example_service =
     snd (OrderBookService_add_order
            (snd (OrderBookService_add_order (OrderBookService_init 100 5000) sell_99)) sell_101)"

text \<open>A book of the service with the single resting order \<^verbatim>\<open>Buy 15@100\<close>.\<close>

definition bid_service :: OrderBookService where
  "bid_service = snd (OrderBookService_add_order (OrderBookService_init 100 5000) buy_100)"

definition bid_book :: OrderBook where
  "bid_book = snd (OrderBook_add_order (OrderBook_init 100) buy_100)"

definition default_config :: SimulationConfig where
  "default_config =
     \<lparr>max_history_size = 1000, performance_mode = False, skip_volatility_calculation = False,
      balance_increase_cycles = 100, balance_increase_amount = 1000, avg_spread_cycles = 50\<rparr>"

definition default_service :: SimulationService where
  "default_service =
     \<lparr>config = default_config, cycle = 0, price_history = [100], volume_history = [0],
      trade_count_history = [0], spread_history = [], last_balance_increase_cycle = 0\<rparr>"

definition default_coordinator :: Coordinator where
  "default_coordinator =
     \<lparr>coordinator_config = default_config, simulation_service = default_service,
      order_book_service = OrderBookService_init 100 5000\<rparr>"

definition new_agent :: "int \<Rightarrow> Agent" where
  "new_agent i =
     \<lparr>ident = i, balance = 10000, position = 0, buy_orders_count = 0, sell_orders_count = 0,
      total_orders_count = 0\<rparr>"

definition default_simulator :: TradingSimulator where
  "default_simulator =
     \<lparr>order_book = OrderBook_init 100, agents = [new_agent 0, new_agent 1], sim_cycle = 0,
      sim_price_history = [100], sim_volume_history = [0], sim_trade_count_history = [0],
      sim_spread_history = [], sim_avg_spread_cycles = 50, sim_balance_increase_cycles = 100,
      sim_balance_increase_amount = 1000, sim_last_balance_increase_cycle = 0\<rparr>"

definition bad_buy :: Order where
  "bad_buy = \<lparr>order_id = 1, price = - 1, quantity = 5, order_type = BUY, agent_id = 0,
              timestamp = 1\<rparr>"

definition small_service :: SimulationService where
  "small_service =
     default_service\<lparr>config := default_config\<lparr>max_history_size := 4\<rparr>,
       price_history := [100, 101, 102, 103], volume_history := [0, 5, 6, 7],
       trade_count_history := [0, 1, 1, 1], spread_history := [1, 1, 2, 2]\<rparr>"

definition tiny_service :: SimulationService where
  "tiny_service = default_service\<lparr>config := default_config\<lparr>max_history_size := 1\<rparr>\<rparr>"

definition full_simulator :: TradingSimulator where
  "full_simulator = default_simulator\<lparr>sim_price_history := replicate 1000 100\<rparr>"

definition rising_service :: SimulationService where
  "rising_service = default_service\<lparr>price_history := [100, 110]\<rparr>"

definition rising_simulator :: TradingSimulator where
  "rising_simulator = default_simulator\<lparr>sim_price_history := [100, 110]\<rparr>"

definition resting_sell :: Order where
  "resting_sell = \<lparr>order_id = 0, price = 100, quantity = 10, order_type = SELL, agent_id = 0,
                   timestamp = 1\<rparr>"

definition taking_buy :: Order where
  "taking_buy = \<lparr>order_id = 0, price = 100, quantity = 10, order_type = BUY, agent_id = 0,
                 timestamp = 2\<rparr>"

text \<open>One pass of the agent loop: agent 0 decides to sell \<^verbatim>\<open>10@100\<close>, agent 1 to buy
  \<^verbatim>\<open>10@100\<close>.\<close>

definition cycle_result :: "Agent list \<times> OrderBook \<times> Trade list" where
  "cycle_result =
     agents_loop [new_agent 0, new_agent 1] [Some resting_sell, Some taking_buy]
       (OrderBook_init 100) []"

definition later_buy :: Order where
  "later_buy = \<lparr>order_id = 5, price = 100, quantity = 7, order_type = BUY, agent_id = 3,
                timestamp = 5\<rparr>"

section \<open>Vocabulary of the proofs\<close>

subsection \<open>What one call matches\<close>

text \<open>
  The walk over the opposing book in the words of the specification (4.1, step 2): with
  \<open>rem\<close> still to fill, a resting order that crosses is filled by
  \<open>min rem (quantity r)\<close>, the others are passed over. \<open>fills\<close> lists, per resting
  order, the quantity it trades (\<open>None\<close> when it is passed over); \<open>reduced\<close> is the
  book side with the quantities decremented, \<open>exhausted\<close> the indices of the orders
  that reached zero, \<open>survivors\<close> the book side without them, \<open>made_trades\<close> the
  trades in the order they are emitted.
\<close>

fun fills :: "(Order \<Rightarrow> bool) \<Rightarrow> int \<Rightarrow> Order list \<Rightarrow> int option list" where
  "fills crosses rem [] = []"
| "fills crosses rem (r # rs) =
     (if crosses r \<and> rem > 0
      then Some (min rem (quantity r)) # fills crosses (rem - min rem (quantity r)) rs
      else None # fills crosses rem rs)"

fun total_filled :: "int option list \<Rightarrow> int" where
  "total_filled [] = 0"
| "total_filled (None # fs) = total_filled fs"
| "total_filled (Some q # fs) = q + total_filled fs"

fun reduced :: "Order list \<Rightarrow> int option list \<Rightarrow> Order list" where
  "reduced (r # rs) (None # fs) = r # reduced rs fs"
| "reduced (r # rs) (Some q # fs) = r\<lparr>quantity := quantity r - q\<rparr> # reduced rs fs"
| "reduced rs fs = []"

fun exhausted :: "nat \<Rightarrow> Order list \<Rightarrow> int option list \<Rightarrow> nat list" where
  "exhausted i (r # rs) (None # fs) = exhausted (Suc i) rs fs"
| "exhausted i (r # rs) (Some q # fs) =
     (if quantity r - q = 0 then i # exhausted (Suc i) rs fs else exhausted (Suc i) rs fs)"
| "exhausted i rs fs = []"

fun survivors :: "Order list \<Rightarrow> int option list \<Rightarrow> Order list" where
  "survivors (r # rs) (None # fs) = r # survivors rs fs"
| "survivors (r # rs) (Some q # fs) =
     (if quantity r - q = 0 then survivors rs fs
      else r\<lparr>quantity := quantity r - q\<rparr> # survivors rs fs)"
| "survivors rs fs = []"

fun made_trades ::
  "(int \<Rightarrow> Order \<Rightarrow> int \<Rightarrow> Trade) \<Rightarrow> int \<Rightarrow> Order list \<Rightarrow> int option list \<Rightarrow> Trade list" where
  "made_trades mk tid (r # rs) (None # fs) = made_trades mk tid rs fs"
| "made_trades mk tid (r # rs) (Some q # fs) = mk tid r q # made_trades mk (tid + 1) rs fs"
| "made_trades mk tid rs fs = []"

definition buy_trade :: "Order \<Rightarrow> int \<Rightarrow> Order \<Rightarrow> int \<Rightarrow> Trade" where
  "buy_trade order tid r q =
     \<lparr>trade_id = tid, trade_price = price r, trade_quantity = q,
      buyer_id = agent_id order, seller_id = agent_id r\<rparr>"

definition sell_trade :: "Order \<Rightarrow> int \<Rightarrow> Order \<Rightarrow> int \<Rightarrow> Trade" where
  "sell_trade order tid r q =
     \<lparr>trade_id = tid, trade_price = price r, trade_quantity = q,
      buyer_id = agent_id r, seller_id = agent_id order\<rparr>"

definition service_sell_trade :: "Order \<Rightarrow> int \<Rightarrow> Order \<Rightarrow> int \<Rightarrow> Trade" where
  "service_sell_trade order tid r q =
     \<lparr>trade_id = tid, trade_price = price order, trade_quantity = q,
      buyer_id = agent_id r, seller_id = agent_id order\<rparr>"

definition crosses_buy :: "Order \<Rightarrow> Order \<Rightarrow> bool" where
  "crosses_buy order r = (price r \<le> price order)"

definition crosses_sell :: "Order \<Rightarrow> Order \<Rightarrow> bool" where
  "crosses_sell order r = (price r \<ge> price order)"

subsection \<open>The result of the loops of \<^verbatim>\<open>OrderBook.add_order\<close> in closed form\<close>

definition buy_loop_result :: "Order \<Rightarrow> nat \<Rightarrow> OrderBook scan \<Rightarrow> OrderBook scan" where
  "buy_loop_result order i st =
    (let b = book st; rs = drop i (sell_orders b);
         fs = fills (crosses_buy order) (remaining_quantity st) rs;
         ts = made_trades (buy_trade order) (next_trade_id b) rs fs
     in st\<lparr>remaining_quantity := remaining_quantity st - total_filled fs,
           orders_to_remove := orders_to_remove st @ exhausted i rs fs,
           new_trades := new_trades st @ ts,
           book := b\<lparr>trades := trades b @ ts,
                     next_trade_id := next_trade_id b + int (length ts),
                     current_price := (if ts = [] then current_price b else trade_price (last ts)),
                     sell_orders := take i (sell_orders b) @ reduced rs fs\<rparr>\<rparr>)"

definition buy_match :: "Order \<Rightarrow> nat \<Rightarrow> OrderBook scan \<Rightarrow> OrderBook scan" where
  "buy_match order i st =
     (let b = book st; sell_order = sell_orders b ! i;
          trade_qty = min (remaining_quantity st) (quantity sell_order);
          trade = \<lparr>trade_id = next_trade_id b, trade_price = price sell_order,
                   trade_quantity = trade_qty, buyer_id = agent_id order,
                   seller_id = agent_id sell_order\<rparr>;
          sell_order' = sell_order\<lparr>quantity := quantity sell_order - trade_qty\<rparr>
      in st\<lparr>remaining_quantity := remaining_quantity st - trade_qty,
            orders_to_remove :=
              (if quantity sell_order' = 0 then orders_to_remove st @ [i]
               else orders_to_remove st),
            new_trades := new_trades st @ [trade],
            book := b\<lparr>trades := trades b @ [trade],
                      next_trade_id := next_trade_id b + 1,
                      current_price := price sell_order,
                      sell_orders := (sell_orders b)[i := sell_order']\<rparr>\<rparr>)"

definition sell_loop_result :: "Order \<Rightarrow> nat \<Rightarrow> OrderBook scan \<Rightarrow> OrderBook scan" where
  "sell_loop_result order i st =
    (let b = book st; rs = drop i (buy_orders b);
         fs = fills (crosses_sell order) (remaining_quantity st) rs;
         ts = made_trades (sell_trade order) (next_trade_id b) rs fs
     in st\<lparr>remaining_quantity := remaining_quantity st - total_filled fs,
           orders_to_remove := orders_to_remove st @ exhausted i rs fs,
           new_trades := new_trades st @ ts,
           book := b\<lparr>trades := trades b @ ts,
                     next_trade_id := next_trade_id b + int (length ts),
                     current_price := (if ts = [] then current_price b else trade_price (last ts)),
                     buy_orders := take i (buy_orders b) @ reduced rs fs\<rparr>\<rparr>)"

definition sell_match :: "Order \<Rightarrow> nat \<Rightarrow> OrderBook scan \<Rightarrow> OrderBook scan" where
  "sell_match order i st =
     (let b = book st; buy_order = buy_orders b ! i;
          trade_qty = min (remaining_quantity st) (quantity buy_order);
          trade = \<lparr>trade_id = next_trade_id b, trade_price = price buy_order,
                   trade_quantity = trade_qty, buyer_id = agent_id buy_order,
                   seller_id = agent_id order\<rparr>;
          buy_order' = buy_order\<lparr>quantity := quantity buy_order - trade_qty\<rparr>
      in st\<lparr>remaining_quantity := remaining_quantity st - trade_qty,
            orders_to_remove :=
              (if quantity buy_order' = 0 then orders_to_remove st @ [i]
               else orders_to_remove st),
            new_trades := new_trades st @ [trade],
            book := b\<lparr>trades := trades b @ [trade],
                      next_trade_id := next_trade_id b + 1,
                      current_price := price buy_order,
                      buy_orders := (buy_orders b)[i := buy_order']\<rparr>\<rparr>)"

subsection \<open>Well-formed orders and books, and the loops of \<^verbatim>\<open>OrderBookService\<close> in
  closed form\<close>

text \<open>
  \<open>valid_order\<close> is what \<^verbatim>\<open>Order.__post_init__\<close> accepts; a book is valid when each
  side holds valid orders of its own type. \<open>record_trades\<close> is the bounded trade
  history after a list of new trades.
\<close>

fun record_trades :: "int \<Rightarrow> Trade list \<Rightarrow> Trade list \<Rightarrow> Trade list" where
  "record_trades m h [] = h"
| "record_trades m h (t # ts) =
     record_trades m
       (if int (length (h @ [t])) > m then slice_last m (h @ [t]) else h @ [t]) ts"

definition valid_resting :: "OrderType \<Rightarrow> Order \<Rightarrow> bool" where
  "valid_resting t r = (order_type r = t \<and> price r > 0 \<and> quantity r > 0 \<and> agent_id r \<ge> 0)"

definition valid_order :: "Order \<Rightarrow> bool" where
  "valid_order order = (price order > 0 \<and> quantity order > 0 \<and> agent_id order \<ge> 0)"

definition valid_book :: "'a OrderBook_scheme \<Rightarrow> bool" where
  "valid_book b = (list_all (valid_resting BUY) (buy_orders b) \<and>
                   list_all (valid_resting SELL) (sell_orders b))"

definition process_buy_result :: "Order \<Rightarrow> nat \<Rightarrow> OrderBookService scan \<Rightarrow> OrderBookService scan" where
  "process_buy_result order i st =
    (let b = book st; rs = drop i (sell_orders b);
         fs = fills (crosses_buy order) (remaining_quantity st) rs;
         ts = made_trades (buy_trade order) (next_trade_id b) rs fs
     in st\<lparr>remaining_quantity := remaining_quantity st - total_filled fs,
           orders_to_remove := orders_to_remove st @ exhausted i rs fs,
           new_trades := new_trades st @ ts,
           book := b\<lparr>trades := record_trades (max_trades_history b) (trades b) ts,
                     next_trade_id := next_trade_id b + int (length ts),
                     sell_orders := take i (sell_orders b) @ reduced rs fs\<rparr>\<rparr>)"

definition process_buy_match :: "Order \<Rightarrow> nat \<Rightarrow> Trade \<Rightarrow> OrderBookService scan \<Rightarrow> OrderBookService scan" where
  "process_buy_match order i trade st =
     (let b = book st; sell_order = sell_orders b ! i;
          trade_qty = min (remaining_quantity st) (quantity sell_order);
          ts = trades b @ [trade];
          ts' = (if int (length ts) > max_trades_history b
                 then slice_last (max_trades_history b) ts else ts);
          sell_order' = sell_order\<lparr>quantity := quantity sell_order - trade_qty\<rparr>
      in st\<lparr>remaining_quantity := remaining_quantity st - trade_qty,
            orders_to_remove :=
              (if quantity sell_order' = 0 then orders_to_remove st @ [i]
               else orders_to_remove st),
            new_trades := new_trades st @ [trade],
            book := b\<lparr>trades := ts',
                      next_trade_id := next_trade_id b + 1,
                      sell_orders := (sell_orders b)[i := sell_order']\<rparr>\<rparr>)"

definition process_sell_result :: "Order \<Rightarrow> nat \<Rightarrow> OrderBookService scan \<Rightarrow> OrderBookService scan" where
  "process_sell_result order i st =
    (let b = book st; rs = drop i (buy_orders b);
         fs = fills (crosses_sell order) (remaining_quantity st) rs;
         ts = made_trades (service_sell_trade order) (next_trade_id b) rs fs
     in st\<lparr>remaining_quantity := remaining_quantity st - total_filled fs,
           orders_to_remove := orders_to_remove st @ exhausted i rs fs,
           new_trades := new_trades st @ ts,
           book := b\<lparr>trades := record_trades (max_trades_history b) (trades b) ts,
                     next_trade_id := next_trade_id b + int (length ts),
                     buy_orders := take i (buy_orders b) @ reduced rs fs\<rparr>\<rparr>)"

definition process_sell_match :: "Order \<Rightarrow> nat \<Rightarrow> Trade \<Rightarrow> OrderBookService scan \<Rightarrow> OrderBookService scan" where
  "process_sell_match order i trade st =
     (let b = book st; buy_order = buy_orders b ! i;
          trade_qty = min (remaining_quantity st) (quantity buy_order);
          ts = trades b @ [trade];
          ts' = (if int (length ts) > max_trades_history b
                 then slice_last (max_trades_history b) ts else ts);
          buy_order' = buy_order\<lparr>quantity := quantity buy_order - trade_qty\<rparr>
      in st\<lparr>remaining_quantity := remaining_quantity st - trade_qty,
            orders_to_remove :=
              (if quantity buy_order' = 0 then orders_to_remove st @ [i]
               else orders_to_remove st),
            new_trades := new_trades st @ [trade],
            book := b\<lparr>trades := ts',
                      next_trade_id := next_trade_id b + 1,
                      buy_orders := (buy_orders b)[i := buy_order']\<rparr>\<rparr>)"

subsection \<open>History buffers and volatility in the words of the specification\<close>

text \<open>
  \<open>trailing n xs\<close> is the last \<open>n\<close> entries of \<open>xs\<close>; \<open>capped_append\<close> is step 6 of the
  cycle: append, and when the buffer then exceeds its cap keep the trailing half.
  \<open>spec_volatility\<close> is step 7: the mean absolute return over at most the last five
  price points, doubled, clamped to \<open>[0.005, 0.05]\<close>.
\<close>

definition trailing :: "nat \<Rightarrow> 'a list \<Rightarrow> 'a list" where
  "trailing n xs = drop (length xs - n) xs"

definition capped_append :: "int \<Rightarrow> 'a list \<Rightarrow> 'a \<Rightarrow> 'a list" where
  "capped_append cap xs x =
     (if int (length (xs @ [x])) > cap then trailing (nat (cap div 2)) (xs @ [x]) else xs @ [x])"

definition step_returns :: "real list \<Rightarrow> real list" where
  "step_returns ps = map (\<lambda>(a, b). (b - a) / a) (zip ps (tl ps))"

definition mean :: "real list \<Rightarrow> real" where
  "mean xs = sum_list xs / real (length xs)"

definition clamp :: "real \<Rightarrow> real \<Rightarrow> real \<Rightarrow> real" where
  "clamp lo hi x = (if x < lo then lo else if x > hi then hi else x)"

definition spec_volatility :: "real list \<Rightarrow> real" where
  "spec_volatility ps = clamp 0.005 0.05 (2 * mean (map abs (step_returns (trailing 5 ps))))"

subsection \<open>The trades of one submission\<close>

text \<open>
  \<open>submitted agent order ob\<close> is the list of trades that \<^verbatim>\<open>run_cycle\<close> gets back from
  \<^verbatim>\<open>add_order\<close> for the order of \<open>agent\<close>; \<open>traded_quantity\<close> and \<open>traded_value\<close> sum
  the quantities and \<open>price * quantity\<close> over a list of trades.
\<close>

definition traded_quantity :: "Trade list \<Rightarrow> int" where
  "traded_quantity ts = sum_list (map trade_quantity ts)"

definition traded_value :: "Trade list \<Rightarrow> real" where
  "traded_value ts = sum_list (map (\<lambda>t. trade_price t * real_of_int (trade_quantity t)) ts)"

definition submitted :: "Agent \<Rightarrow> Order \<Rightarrow> OrderBook \<Rightarrow> Trade list" where
  "submitted agent order ob =
     fst (OrderBook_add_order (ob\<lparr>next_order_id := next_order_id ob + 1\<rparr>)
            (order\<lparr>agent_id := ident agent, order_id := next_order_id ob\<rparr>))"

subsection \<open>Price-time priority\<close>

text \<open>
  \<open>buy_before a b\<close>: \<open>a\<close> may stand before \<open>b\<close> in the buy book, having the higher
  price or the same price and a time stamp that is not later; \<open>sell_before\<close> is the same
  with the lower price. A book is sorted when each side is sorted in this sense.
  \<open>arrives_last b order\<close>: no resting order has a later time stamp than \<open>order\<close>.
\<close>

definition priority_key :: "Order \<Rightarrow> real \<times> real" where
  "priority_key r = (price r, timestamp r)"

definition buy_before :: "Order \<Rightarrow> Order \<Rightarrow> bool" where
  "buy_before a b = (price b < price a \<or> (price a = price b \<and> timestamp a \<le> timestamp b))"

definition sell_before :: "Order \<Rightarrow> Order \<Rightarrow> bool" where
  "sell_before a b = (price a < price b \<or> (price a = price b \<and> timestamp a \<le> timestamp b))"

definition book_sorted :: "'a OrderBook_scheme \<Rightarrow> bool" where
  "book_sorted b = (sorted_wrt buy_before (buy_orders b) \<and> sorted_wrt sell_before (sell_orders b))"

definition arrives_last :: "'a OrderBook_scheme \<Rightarrow> Order \<Rightarrow> bool" where
  "arrives_last b order =
     list_all (\<lambda>r. timestamp r \<le> timestamp order) (buy_orders b @ sell_orders b)"

subsection \<open>Conservation of quantity\<close>

text \<open>
  \<open>crosses order r\<close> is the crossing condition of the specification
  (\<open>incoming.price \<ge> resting.price\<close> for a buy, \<open>\<le>\<close> for a sell), \<open>planned_fills\<close> the
  fills of the walk over the opposing book and \<open>remainder\<close> what is left of the incoming
  quantity after them. \<open>matched\<close> pairs each resting order that trades with the quantity
  it trades. \<open>conserves order b ts b'\<close> says of the trades \<open>ts\<close> and the book \<open>b'\<close> after
  the call:
  \<^item> the trades are, in order, those of the matched resting orders, each for the quantity
    of its fill, with the owner of the resting order as the other party;
  \<^item> the quantity of the incoming order is the sum of the trade quantities plus the
    remainder, which is not negative;
  \<^item> the opposing book is the old one with each matched order reduced by its fill, and
    removed when nothing of it is left (\<open>survivors\<close>);
  \<^item> the own book gains the incoming order with the remainder as its quantity when the
    remainder is positive, and is unchanged otherwise.
\<close>

fun matched :: "Order list \<Rightarrow> int option list \<Rightarrow> (Order \<times> int) list" where
  "matched (r # rs) (None # fs) = matched rs fs"
| "matched (r # rs) (Some q # fs) = (r, q) # matched rs fs"
| "matched rs fs = []"

definition crosses :: "Order \<Rightarrow> Order \<Rightarrow> bool" where
  "crosses order r =
     (if order_type order = BUY then price r \<le> price order else price order \<le> price r)"

definition opposing_orders :: "OrderType \<Rightarrow> 'a OrderBook_scheme \<Rightarrow> Order list" where
  "opposing_orders t b = (if t = BUY then sell_orders b else buy_orders b)"

definition own_orders :: "OrderType \<Rightarrow> 'a OrderBook_scheme \<Rightarrow> Order list" where
  "own_orders t b = (if t = BUY then buy_orders b else sell_orders b)"

definition planned_fills :: "Order \<Rightarrow> 'a OrderBook_scheme \<Rightarrow> int option list" where
  "planned_fills order b =
     fills (crosses order) (quantity order) (opposing_orders (order_type order) b)"

definition remainder :: "Order \<Rightarrow> 'a OrderBook_scheme \<Rightarrow> int" where
  "remainder order b = quantity order - total_filled (planned_fills order b)"

definition resting_party :: "OrderType \<Rightarrow> Trade \<Rightarrow> int" where
  "resting_party t tr = (if t = BUY then seller_id tr else buyer_id tr)"

definition conserves ::
  "Order \<Rightarrow> 'a OrderBook_scheme \<Rightarrow> Trade list \<Rightarrow> 'a OrderBook_scheme \<Rightarrow> bool" where
  "conserves order b ts b' =
     (let t = order_type order; fs = planned_fills order b; rem = remainder order b in
        map (\<lambda>tr. (resting_party t tr, trade_quantity tr)) ts
          = map (\<lambda>(r, q). (agent_id r, q)) (matched (opposing_orders t b) fs)
      \<and> quantity order = traded_quantity ts + rem
      \<and> 0 \<le> rem
      \<and> opposing_orders t b' = survivors (opposing_orders t b) fs
      \<and> (if rem > 0
         then mset (own_orders t b') = add_mset (order\<lparr>quantity := rem\<rparr>) (mset (own_orders t b))
         else own_orders t b' = own_orders t b))"

section \<open>Evaluating the examples\<close>

lemmas order_defs = sell_99_def sell_101_def buy_100_def sell_95_def

lemmas book_eval = OrderBook_add_order_def OrderBook_init_def
  remove_orders_def pop_def sort_by_price_def sort_by_price_reverse_def Let_def

lemmas service_eval = OrderBookService_add_order_def OrderBookService_init_def
  process_buy_order_def process_sell_order_def create_from_orders_def Trade_init_def
  is_buy_def is_sell_def remove_orders_def pop_def Let_def slice_last_def

lemmas query_defs = get_best_bid_def get_best_ask_def get_spread_def truthy_def

lemma example_book_eq:
  "example_book = (OrderBook_init 100)\<lparr>sell_orders := [sell_99, sell_101]\<rparr>"
  unfolding example_book_def by (simp add: order_defs book_eval)

lemma example_book_result:
  "OrderBook_add_order example_book buy_100 =
   ([\<lparr>trade_id = 1, trade_price = 99, trade_quantity = 10, buyer_id = 2, seller_id = 0\<rparr>],
    (OrderBook_init 100)\<lparr>current_price := 99, buy_orders := [buy_100\<lparr>quantity := 5\<rparr>],
       sell_orders := [sell_101],
       trades := [\<lparr>trade_id = 1, trade_price = 99, trade_quantity = 10, buyer_id = 2,
                   seller_id = 0\<rparr>],
       next_trade_id := 2\<rparr>)"
  unfolding example_book_eq by (simp add: order_defs book_eval)

lemma example_service_eq:
  "example_service = (OrderBookService_init 100 5000)\<lparr>sell_orders := [sell_99, sell_101]\<rparr>"
  unfolding example_service_def by (simp add: order_defs service_eval)

lemma example_service_result:
  "OrderBookService_add_order example_service buy_100 =
   (Inr [\<lparr>trade_id = 1, trade_price = 99, trade_quantity = 10, buyer_id = 2, seller_id = 0\<rparr>],
    (OrderBookService_init 100 5000)\<lparr>current_price := 99,
       buy_orders := [buy_100\<lparr>quantity := 5\<rparr>], sell_orders := [sell_101],
       trades := [\<lparr>trade_id = 1, trade_price = 99, trade_quantity = 10, buyer_id = 2,
                   seller_id = 0\<rparr>],
       next_trade_id := 2\<rparr>)"
  unfolding example_service_eq by (simp add: order_defs service_eval)

lemma bid_service_eq:
  "bid_service = (OrderBookService_init 100 5000)\<lparr>buy_orders := [buy_100]\<rparr>"
  unfolding bid_service_def by (simp add: order_defs service_eval)

lemma bid_book_eq: "bid_book = (OrderBook_init 100)\<lparr>buy_orders := [buy_100]\<rparr>"
  unfolding bid_book_def by (simp add: order_defs book_eval)

section \<open>The matching loops\<close>

subsection \<open>Lists\<close>

lemma fills_done: "rem \<le> 0 \<Longrightarrow> fills c rem rs = replicate (length rs) None"
  by (induction rs) auto

lemma length_fills [simp]: "length (fills c rem rs) = length rs"
  by (induction rs arbitrary: rem) auto

lemma total_filled_None [simp]: "total_filled (replicate n None) = 0"
  by (induction n) auto

lemma reduced_None [simp]: "reduced rs (replicate (length rs) None) = rs"
  by (induction rs) auto

lemma exhausted_None [simp]: "exhausted i rs (replicate (length rs) None) = []"
  by (induction rs arbitrary: i) auto

lemma survivors_None [simp]: "survivors rs (replicate (length rs) None) = rs"
  by (induction rs) auto

lemma made_trades_None [simp]: "made_trades mk tid rs (replicate (length rs) None) = []"
  by (induction rs) auto

lemma remove_orders_Nil [simp]: "remove_orders [] xs = xs"
  by (simp add: remove_orders_def)

lemma remove_orders_Cons: "remove_orders (i # idxs) xs = pop i (remove_orders idxs xs)"
  by (simp add: remove_orders_def)

lemma pop_length_append [simp]: "pop (length p) (p @ x # xs) = p @ xs"
  by (simp add: pop_def)

lemma remove_exhausted:
  "length fs = length rs \<Longrightarrow>
   remove_orders (exhausted (length p) rs fs) (p @ reduced rs fs) = p @ survivors rs fs"
proof (induction rs fs arbitrary: p rule: reduced.induct)
  case (1 r rs fs)
  from 1 have "remove_orders (exhausted (length (p @ [r])) rs fs) ((p @ [r]) @ reduced rs fs)
      = (p @ [r]) @ survivors rs fs"
    by (intro "1.IH") simp
  then show ?case by simp
next
  case (2 r rs q fs)
  let ?r = "r\<lparr>quantity := quantity r - q\<rparr>"
  from 2 have IH: "remove_orders (exhausted (length (p @ [?r])) rs fs) ((p @ [?r]) @ reduced rs fs)
      = (p @ [?r]) @ survivors rs fs"
    by (intro "2.IH") simp
  show ?case
  proof (cases "quantity r - q = 0")
    case True
    then show ?thesis using IH by (simp add: remove_orders_Cons)
  next
    case False
    then show ?thesis using IH by simp
  qed
qed simp_all

subsection \<open>The loops of \<^verbatim>\<open>OrderBook.add_order\<close>\<close>

lemma buy_loop_skip:
  "\<not> (price (sell_orders (book st) ! i) \<le> price order \<and> remaining_quantity st > 0) \<Longrightarrow>
   buy_loop order i (Suc n) st = buy_loop order (Suc i) n st"
  by (simp only: buy_loop.simps Let_def if_False)

lemma buy_loop_match:
  "price (sell_orders (book st) ! i) \<le> price order \<and> remaining_quantity st > 0 \<Longrightarrow>
   buy_loop order i (Suc n) st =
     (if remaining_quantity (buy_match order i st) = 0 then buy_match order i st
      else buy_loop order (Suc i) n (buy_match order i st))"
  by (simp add: buy_match_def Let_def)

lemma buy_loop_result_skip:
  assumes "i < length (sell_orders (book st))"
    and "\<not> (price (sell_orders (book st) ! i) \<le> price order \<and> remaining_quantity st > 0)"
  shows "buy_loop_result order (Suc i) st = buy_loop_result order i st"
proof -
  have d: "drop i (sell_orders (book st)) = sell_orders (book st) ! i # drop (Suc i) (sell_orders (book st))"
    using assms(1) by (simp add: Cons_nth_drop_Suc)
  from assms(2) consider "\<not> price (sell_orders (book st) ! i) \<le> price order" | "\<not> remaining_quantity st > 0"
    by blast
  then show ?thesis
  proof cases
    case 1
    then show ?thesis
      unfolding buy_loop_result_def Let_def d using assms(1)
      by (simp add: take_Suc_conv_app_nth crosses_buy_def)
  next
    case 2
    then show ?thesis
      unfolding buy_loop_result_def Let_def d using assms(1)
      by (simp add: take_Suc_conv_app_nth crosses_buy_def)
  qed
qed

lemma buy_loop_result_done:
  assumes "remaining_quantity st \<le> 0" "i \<le> length (sell_orders (book st))"
  shows "buy_loop_result order i st = st"
  using assms by (simp add: buy_loop_result_def Let_def fills_done)

lemma buy_loop_result_match:
  assumes "i < length (sell_orders (book st))"
    and "price (sell_orders (book st) ! i) \<le> price order" "remaining_quantity st > 0"
  shows "buy_loop_result order (Suc i) (buy_match order i st) = buy_loop_result order i st"
proof -
  have d: "drop i (sell_orders (book st)) = sell_orders (book st) ! i # drop (Suc i) (sell_orders (book st))"
    using assms(1) by (simp add: Cons_nth_drop_Suc)
  show ?thesis
    unfolding buy_loop_result_def buy_match_def Let_def d using assms
    by (simp add: take_Suc_conv_app_nth crosses_buy_def buy_trade_def)
qed

lemma buy_loop_char:
  "i + n = length (sell_orders (book st)) \<Longrightarrow> buy_loop order i n st = buy_loop_result order i st"
proof (induction n arbitrary: i st)
  case 0
  then show ?case by (simp add: buy_loop_result_def)
next
  case (Suc n)
  let ?xs = "sell_orders (book st)"
  from Suc.prems have i: "i < length ?xs" by simp
  show ?case
  proof (cases "price (sell_orders (book st) ! i) \<le> price order \<and> remaining_quantity st > 0")
    case False
    have "buy_loop order i (Suc n) st = buy_loop order (Suc i) n st"
      using False by (rule buy_loop_skip)
    also have "\<dots> = buy_loop_result order (Suc i) st"
      using Suc.prems by (intro Suc.IH) simp
    also have "\<dots> = buy_loop_result order i st"
      using i False by (rule buy_loop_result_skip)
    finally show ?thesis .
  next
    case True
    let ?st = "buy_match order i st"
    have len: "length (sell_orders (book ?st)) = length ?xs"
      by (simp add: buy_match_def Let_def)
    have step: "buy_loop order i (Suc n) st =
        (if remaining_quantity ?st = 0 then ?st else buy_loop order (Suc i) n ?st)"
      using True by (rule buy_loop_match)
    have "buy_loop order i (Suc n) st = buy_loop_result order (Suc i) ?st"
    proof (cases "remaining_quantity ?st = 0")
      case True
      have "buy_loop order i (Suc n) st = ?st"
        unfolding step using True by simp
      also have "\<dots> = buy_loop_result order (Suc i) ?st"
        using True i len by (simp add: buy_loop_result_done)
      finally show ?thesis .
    next
      case False
      have "buy_loop order i (Suc n) st = buy_loop order (Suc i) n ?st"
        unfolding step using False by simp
      also have "\<dots> = buy_loop_result order (Suc i) ?st"
        using Suc.prems len by (intro Suc.IH) simp
      finally show ?thesis .
    qed
    also have "\<dots> = buy_loop_result order i st"
      using i True by (intro buy_loop_result_match) auto
    finally show ?thesis .
  qed
qed

lemma sell_loop_skip:
  "\<not> (price (buy_orders (book st) ! i) \<ge> price order \<and> remaining_quantity st > 0) \<Longrightarrow>
   sell_loop order i (Suc n) st = sell_loop order (Suc i) n st"
  by (simp only: sell_loop.simps Let_def if_False)

lemma sell_loop_match:
  "price (buy_orders (book st) ! i) \<ge> price order \<and> remaining_quantity st > 0 \<Longrightarrow>
   sell_loop order i (Suc n) st =
     (if remaining_quantity (sell_match order i st) = 0 then sell_match order i st
      else sell_loop order (Suc i) n (sell_match order i st))"
  by (simp add: sell_match_def Let_def)

lemma sell_loop_result_skip:
  assumes "i < length (buy_orders (book st))"
    and "\<not> (price (buy_orders (book st) ! i) \<ge> price order \<and> remaining_quantity st > 0)"
  shows "sell_loop_result order (Suc i) st = sell_loop_result order i st"
proof -
  have d: "drop i (buy_orders (book st)) = buy_orders (book st) ! i # drop (Suc i) (buy_orders (book st))"
    using assms(1) by (simp add: Cons_nth_drop_Suc)
  from assms(2) consider "\<not> price (buy_orders (book st) ! i) \<ge> price order" | "\<not> remaining_quantity st > 0"
    by blast
  then show ?thesis
  proof cases
    case 1
    then show ?thesis
      unfolding sell_loop_result_def Let_def d using assms(1)
      by (simp add: take_Suc_conv_app_nth crosses_sell_def)
  next
    case 2
    then show ?thesis
      unfolding sell_loop_result_def Let_def d using assms(1)
      by (simp add: take_Suc_conv_app_nth crosses_sell_def)
  qed
qed

lemma sell_loop_result_done:
  assumes "remaining_quantity st \<le> 0" "i \<le> length (buy_orders (book st))"
  shows "sell_loop_result order i st = st"
  using assms by (simp add: sell_loop_result_def Let_def fills_done)

lemma sell_loop_result_match:
  assumes "i < length (buy_orders (book st))"
    and "price (buy_orders (book st) ! i) \<ge> price order" "remaining_quantity st > 0"
  shows "sell_loop_result order (Suc i) (sell_match order i st) = sell_loop_result order i st"
proof -
  have d: "drop i (buy_orders (book st)) = buy_orders (book st) ! i # drop (Suc i) (buy_orders (book st))"
    using assms(1) by (simp add: Cons_nth_drop_Suc)
  show ?thesis
    unfolding sell_loop_result_def sell_match_def Let_def d using assms
    by (simp add: take_Suc_conv_app_nth crosses_sell_def sell_trade_def)
qed

lemma sell_loop_char:
  "i + n = length (buy_orders (book st)) \<Longrightarrow> sell_loop order i n st = sell_loop_result order i st"
proof (induction n arbitrary: i st)
  case 0
  then show ?case by (simp add: sell_loop_result_def)
next
  case (Suc n)
  let ?xs = "buy_orders (book st)"
  from Suc.prems have i: "i < length ?xs" by simp
  show ?case
  proof (cases "price (buy_orders (book st) ! i) \<ge> price order \<and> remaining_quantity st > 0")
    case False
    have "sell_loop order i (Suc n) st = sell_loop order (Suc i) n st"
      using False by (rule sell_loop_skip)
    also have "\<dots> = sell_loop_result order (Suc i) st"
      using Suc.prems by (intro Suc.IH) simp
    also have "\<dots> = sell_loop_result order i st"
      using i False by (rule sell_loop_result_skip)
    finally show ?thesis .
  next
    case True
    let ?st = "sell_match order i st"
    have len: "length (buy_orders (book ?st)) = length ?xs"
      by (simp add: sell_match_def Let_def)
    have step: "sell_loop order i (Suc n) st =
        (if remaining_quantity ?st = 0 then ?st else sell_loop order (Suc i) n ?st)"
      using True by (rule sell_loop_match)
    have "sell_loop order i (Suc n) st = sell_loop_result order (Suc i) ?st"
    proof (cases "remaining_quantity ?st = 0")
      case True
      have "sell_loop order i (Suc n) st = ?st"
        unfolding step using True by simp
      also have "\<dots> = sell_loop_result order (Suc i) ?st"
        using True i len by (simp add: sell_loop_result_done)
      finally show ?thesis .
    next
      case False
      have "sell_loop order i (Suc n) st = sell_loop order (Suc i) n ?st"
        unfolding step using False by simp
      also have "\<dots> = sell_loop_result order (Suc i) ?st"
        using Suc.prems len by (intro Suc.IH) simp
      finally show ?thesis .
    qed
    also have "\<dots> = sell_loop_result order i st"
      using i True by (intro sell_loop_result_match) auto
    finally show ?thesis .
  qed
qed

lemma OrderBook_add_order_buy:
  assumes "order_type order = BUY"
  shows "OrderBook_add_order b order =
    (let rs = sell_orders b;
         fs = fills (crosses_buy order) (quantity order) rs;
         ts = made_trades (buy_trade order) (next_trade_id b) rs fs;
         rem = quantity order - total_filled fs
     in (ts, b\<lparr>trades := trades b @ ts,
                next_trade_id := next_trade_id b + int (length ts),
                current_price := (if ts = [] then current_price b else trade_price (last ts)),
                sell_orders := survivors rs fs,
                buy_orders := (if rem > 0
                   then sort_by_price_reverse (buy_orders b @ [order\<lparr>quantity := rem\<rparr>])
                   else buy_orders b)\<rparr>))"
  using assms remove_exhausted[of "fills (crosses_buy order) (quantity order) (sell_orders b)"
      "sell_orders b" "[]"]
  by (simp add: OrderBook_add_order_def buy_loop_char buy_loop_result_def Let_def)

lemma OrderBook_add_order_sell:
  assumes "order_type order \<noteq> BUY"
  shows "OrderBook_add_order b order =
    (let rs = buy_orders b;
         fs = fills (crosses_sell order) (quantity order) rs;
         ts = made_trades (sell_trade order) (next_trade_id b) rs fs;
         rem = quantity order - total_filled fs
     in (ts, b\<lparr>trades := trades b @ ts,
                next_trade_id := next_trade_id b + int (length ts),
                current_price := (if ts = [] then current_price b else trade_price (last ts)),
                buy_orders := survivors rs fs,
                sell_orders := (if rem > 0
                   then sort_by_price (sell_orders b @ [order\<lparr>quantity := rem\<rparr>])
                   else sell_orders b)\<rparr>))"
  using assms remove_exhausted[of "fills (crosses_sell order) (quantity order) (buy_orders b)"
      "buy_orders b" "[]"]
  by (simp add: OrderBook_add_order_def sell_loop_char sell_loop_result_def Let_def)

subsection \<open>The loops of \<^verbatim>\<open>OrderBookService\<close>\<close>

lemma process_buy_loop_skip:
  "\<not> (price (sell_orders (book st) ! i) \<le> price order \<and> remaining_quantity st > 0) \<Longrightarrow>
   process_buy_loop order i (Suc n) st = process_buy_loop order (Suc i) n st"
  by (simp only: process_buy_loop.simps Let_def if_False)

lemma process_buy_loop_raise:
  "price (sell_orders (book st) ! i) \<le> price order \<and> remaining_quantity st > 0 \<Longrightarrow>
   (let b = book st; sell_order = sell_orders b ! i;
        trade_qty = min (remaining_quantity st) (quantity sell_order) in create_from_orders (next_trade_id b) order sell_order trade_qty) = Inl e \<Longrightarrow>
   process_buy_loop order i (Suc n) st = (Some e, st)"
  by (simp add: Let_def)

lemma process_buy_loop_match:
  "price (sell_orders (book st) ! i) \<le> price order \<and> remaining_quantity st > 0 \<Longrightarrow>
   (let b = book st; sell_order = sell_orders b ! i;
        trade_qty = min (remaining_quantity st) (quantity sell_order) in create_from_orders (next_trade_id b) order sell_order trade_qty) = Inr trade \<Longrightarrow>
   process_buy_loop order i (Suc n) st =
     (if remaining_quantity (process_buy_match order i trade st) = 0 then (None, process_buy_match order i trade st)
      else process_buy_loop order (Suc i) n (process_buy_match order i trade st))"
  by (simp add: process_buy_match_def Let_def)

lemma process_buy_loop_frame:
  "i + n = length (sell_orders (book st)) \<Longrightarrow> process_buy_loop order i n st = (e, st') \<Longrightarrow>
   buy_orders (book st') = buy_orders (book st) \<and>
   current_price (book st') = current_price (book st) \<and>
   map (\<lambda>r. (price r, timestamp r)) (sell_orders (book st')) =
     map (\<lambda>r. (price r, timestamp r)) (sell_orders (book st))"
proof (induction n arbitrary: i st)
  case 0
  then show ?case by simp
next
  case (Suc n)
  let ?xs = "sell_orders (book st)"
  let ?c = "(let b = book st; sell_order = sell_orders b ! i;
        trade_qty = min (remaining_quantity st) (quantity sell_order) in create_from_orders (next_trade_id b) order sell_order trade_qty)"
  from Suc.prems have i: "i < length ?xs" by simp
  show ?case
  proof (cases "price (sell_orders (book st) ! i) \<le> price order \<and> remaining_quantity st > 0")
    case False
    then have "process_buy_loop order i (Suc n) st = process_buy_loop order (Suc i) n st"
      by (rule process_buy_loop_skip)
    with Suc.prems(2) have "process_buy_loop order (Suc i) n st = (e, st')" by simp
    with Suc.prems(1) show ?thesis by (intro Suc.IH) simp_all
  next
    case True
    show ?thesis
    proof (cases ?c)
      case (Inl err)
      with True have "process_buy_loop order i (Suc n) st = (Some err, st)" by (rule process_buy_loop_raise)
      with Suc.prems(2) show ?thesis by simp
    next
      case (Inr trade)
      let ?st = "process_buy_match order i trade st"
      have step: "process_buy_loop order i (Suc n) st =
          (if remaining_quantity ?st = 0 then (None, ?st) else process_buy_loop order (Suc i) n ?st)"
        using True Inr by (rule process_buy_loop_match)
      have m: "buy_orders (book ?st) = buy_orders (book st) \<and>
          current_price (book ?st) = current_price (book st) \<and>
          map (\<lambda>r. (price r, timestamp r)) (sell_orders (book ?st)) =
            map (\<lambda>r. (price r, timestamp r)) (sell_orders (book st))"
        using i by (simp add: process_buy_match_def Let_def map_update list_update_same_conv)
      have len: "length (sell_orders (book ?st)) = length ?xs"
        by (simp add: process_buy_match_def Let_def)
      show ?thesis
      proof (cases "remaining_quantity ?st = 0")
        case True
        with step Suc.prems(2) have "st' = ?st" by simp
        with m show ?thesis by simp
      next
        case False
        with step Suc.prems(2) have "process_buy_loop order (Suc i) n ?st = (e, st')" by simp
        with Suc.prems(1) len have "buy_orders (book st') = buy_orders (book ?st) \<and>
          current_price (book st') = current_price (book ?st) \<and>
          map (\<lambda>r. (price r, timestamp r)) (sell_orders (book st')) =
            map (\<lambda>r. (price r, timestamp r)) (sell_orders (book ?st))"
          by (intro Suc.IH) simp_all
        with m show ?thesis by simp
      qed
    qed
  qed
qed

lemma process_sell_loop_skip:
  "\<not> (price (buy_orders (book st) ! i) \<ge> price order \<and> remaining_quantity st > 0) \<Longrightarrow>
   process_sell_loop order i (Suc n) st = process_sell_loop order (Suc i) n st"
  by (simp only: process_sell_loop.simps Let_def if_False)

lemma process_sell_loop_raise:
  "price (buy_orders (book st) ! i) \<ge> price order \<and> remaining_quantity st > 0 \<Longrightarrow>
   (let b = book st; buy_order = buy_orders b ! i;
        trade_qty = min (remaining_quantity st) (quantity buy_order) in create_from_orders (next_trade_id b) buy_order order trade_qty) = Inl e \<Longrightarrow>
   process_sell_loop order i (Suc n) st = (Some e, st)"
  by (simp add: Let_def)

lemma process_sell_loop_match:
  "price (buy_orders (book st) ! i) \<ge> price order \<and> remaining_quantity st > 0 \<Longrightarrow>
   (let b = book st; buy_order = buy_orders b ! i;
        trade_qty = min (remaining_quantity st) (quantity buy_order) in create_from_orders (next_trade_id b) buy_order order trade_qty) = Inr trade \<Longrightarrow>
   process_sell_loop order i (Suc n) st =
     (if remaining_quantity (process_sell_match order i trade st) = 0 then (None, process_sell_match order i trade st)
      else process_sell_loop order (Suc i) n (process_sell_match order i trade st))"
  by (simp add: process_sell_match_def Let_def)

lemma process_sell_loop_frame:
  "i + n = length (buy_orders (book st)) \<Longrightarrow> process_sell_loop order i n st = (e, st') \<Longrightarrow>
   sell_orders (book st') = sell_orders (book st) \<and>
   current_price (book st') = current_price (book st) \<and>
   map (\<lambda>r. (price r, timestamp r)) (buy_orders (book st')) =
     map (\<lambda>r. (price r, timestamp r)) (buy_orders (book st))"
proof (induction n arbitrary: i st)
  case 0
  then show ?case by simp
next
  case (Suc n)
  let ?xs = "buy_orders (book st)"
  let ?c = "(let b = book st; buy_order = buy_orders b ! i;
        trade_qty = min (remaining_quantity st) (quantity buy_order) in create_from_orders (next_trade_id b) buy_order order trade_qty)"
  from Suc.prems have i: "i < length ?xs" by simp
  show ?case
  proof (cases "price (buy_orders (book st) ! i) \<ge> price order \<and> remaining_quantity st > 0")
    case False
    then have "process_sell_loop order i (Suc n) st = process_sell_loop order (Suc i) n st"
      by (rule process_sell_loop_skip)
    with Suc.prems(2) have "process_sell_loop order (Suc i) n st = (e, st')" by simp
    with Suc.prems(1) show ?thesis by (intro Suc.IH) simp_all
  next
    case True
    show ?thesis
    proof (cases ?c)
      case (Inl err)
      with True have "process_sell_loop order i (Suc n) st = (Some err, st)" by (rule process_sell_loop_raise)
      with Suc.prems(2) show ?thesis by simp
    next
      case (Inr trade)
      let ?st = "process_sell_match order i trade st"
      have step: "process_sell_loop order i (Suc n) st =
          (if remaining_quantity ?st = 0 then (None, ?st) else process_sell_loop order (Suc i) n ?st)"
        using True Inr by (rule process_sell_loop_match)
      have m: "sell_orders (book ?st) = sell_orders (book st) \<and>
          current_price (book ?st) = current_price (book st) \<and>
          map (\<lambda>r. (price r, timestamp r)) (buy_orders (book ?st)) =
            map (\<lambda>r. (price r, timestamp r)) (buy_orders (book st))"
        using i by (simp add: process_sell_match_def Let_def map_update list_update_same_conv)
      have len: "length (buy_orders (book ?st)) = length ?xs"
        by (simp add: process_sell_match_def Let_def)
      show ?thesis
      proof (cases "remaining_quantity ?st = 0")
        case True
        with step Suc.prems(2) have "st' = ?st" by simp
        with m show ?thesis by simp
      next
        case False
        with step Suc.prems(2) have "process_sell_loop order (Suc i) n ?st = (e, st')" by simp
        with Suc.prems(1) len have "sell_orders (book st') = sell_orders (book ?st) \<and>
          current_price (book st') = current_price (book ?st) \<and>
          map (\<lambda>r. (price r, timestamp r)) (buy_orders (book st')) =
            map (\<lambda>r. (price r, timestamp r)) (buy_orders (book ?st))"
          by (intro Suc.IH) simp_all
        with m show ?thesis by simp
      qed
    qed
  qed
qed

lemma create_buy_ok:
  assumes "valid_resting SELL r" "order_type order = BUY" "price order > 0" "agent_id order \<ge> 0"
    and "0 < rem" "rem \<le> quantity order"
  shows "create_from_orders tid order r (min rem (quantity r)) = Inr (buy_trade order tid r (min rem (quantity r)))"
  using assms
  by (auto simp add: create_from_orders_def Trade_init_def is_buy_def is_sell_def
      valid_resting_def buy_trade_def min_def)

lemma process_buy_result_skip:
  assumes "i < length (sell_orders (book st))"
    and "\<not> (price (sell_orders (book st) ! i) \<le> price order \<and> remaining_quantity st > 0)"
  shows "process_buy_result order (Suc i) st = process_buy_result order i st"
proof -
  have d: "drop i (sell_orders (book st)) = sell_orders (book st) ! i # drop (Suc i) (sell_orders (book st))"
    using assms(1) by (simp add: Cons_nth_drop_Suc)
  from assms(2) consider "\<not> price (sell_orders (book st) ! i) \<le> price order" | "\<not> remaining_quantity st > 0"
    by blast
  then show ?thesis
  proof cases
    case 1
    then show ?thesis
      unfolding process_buy_result_def Let_def d using assms(1)
      by (simp add: take_Suc_conv_app_nth crosses_buy_def)
  next
    case 2
    then show ?thesis
      unfolding process_buy_result_def Let_def d using assms(1)
      by (simp add: take_Suc_conv_app_nth crosses_buy_def)
  qed
qed

lemma process_buy_result_done:
  assumes "remaining_quantity st \<le> 0" "i \<le> length (sell_orders (book st))"
  shows "process_buy_result order i st = st"
  using assms by (simp add: process_buy_result_def Let_def fills_done)

lemma process_buy_result_match:
  assumes "i < length (sell_orders (book st))"
    and "price (sell_orders (book st) ! i) \<le> price order" "remaining_quantity st > 0"
  shows "process_buy_result order (Suc i)
           (process_buy_match order i
              (buy_trade order (next_trade_id (book st)) (sell_orders (book st) ! i)
                 (min (remaining_quantity st) (quantity (sell_orders (book st) ! i)))) st)
         = process_buy_result order i st"
proof -
  have d: "drop i (sell_orders (book st)) = sell_orders (book st) ! i # drop (Suc i) (sell_orders (book st))"
    using assms(1) by (simp add: Cons_nth_drop_Suc)
  show ?thesis
    unfolding process_buy_result_def process_buy_match_def Let_def d using assms
    by (simp add: take_Suc_conv_app_nth crosses_buy_def)
qed

lemma process_buy_loop_char:
  assumes "i + n = length (sell_orders (book st))"
    and "list_all (valid_resting SELL) (drop i (sell_orders (book st)))"
    and "order_type order = BUY" "price order > 0" "agent_id order \<ge> 0"
    and "remaining_quantity st \<le> quantity order"
  shows "process_buy_loop order i n st = (None, process_buy_result order i st)"
  using assms(1,2,6)
proof (induction n arbitrary: i st)
  case 0
  then show ?case by (simp add: process_buy_result_def)
next
  case (Suc n)
  let ?xs = "sell_orders (book st)"
  let ?r = "?xs ! i"
  from Suc.prems have i: "i < length ?xs" by simp
  have d: "drop i ?xs = ?r # drop (Suc i) ?xs"
    using i by (simp add: Cons_nth_drop_Suc)
  from Suc.prems(2) have vr: "valid_resting SELL ?r"
    and vrest: "list_all (valid_resting SELL) (drop (Suc i) ?xs)"
    unfolding d by simp_all
  show ?case
  proof (cases "price (sell_orders (book st) ! i) \<le> price order \<and> remaining_quantity st > 0")
    case False
    have "process_buy_loop order i (Suc n) st = process_buy_loop order (Suc i) n st"
      using False by (rule process_buy_loop_skip)
    also have "\<dots> = (None, process_buy_result order (Suc i) st)"
      using Suc.prems vrest by (intro Suc.IH) simp_all
    also have "process_buy_result order (Suc i) st = process_buy_result order i st"
      using i False by (rule process_buy_result_skip)
    finally show ?thesis .
  next
    case True
    let ?q = "min (remaining_quantity st) (quantity ?r)"
    let ?t = "buy_trade order (next_trade_id (book st)) ?r ?q"
    let ?st = "process_buy_match order i ?t st"
    have q: "0 < ?q" using True vr by (simp add: valid_resting_def)
    have cr: "(let b = book st; sell_order = sell_orders b ! i;
        trade_qty = min (remaining_quantity st) (quantity sell_order)
        in create_from_orders (next_trade_id b) order sell_order trade_qty) = Inr ?t"
      unfolding Let_def
      using create_buy_ok[OF vr assms(3,4,5), of "remaining_quantity st" "next_trade_id (book st)"]
        True Suc.prems(3) by simp
    have len: "length (sell_orders (book ?st)) = length ?xs"
      by (simp add: process_buy_match_def Let_def)
    have rest: "drop (Suc i) (sell_orders (book ?st)) = drop (Suc i) ?xs"
      by (simp add: process_buy_match_def Let_def)
    have rem: "remaining_quantity ?st \<le> quantity order"
      using q Suc.prems(3) by (simp add: process_buy_match_def Let_def min_def)
    have step: "process_buy_loop order i (Suc n) st =
        (if remaining_quantity ?st = 0 then (None, ?st) else process_buy_loop order (Suc i) n ?st)"
      using True cr by (rule process_buy_loop_match)
    have "process_buy_loop order i (Suc n) st = (None, process_buy_result order (Suc i) ?st)"
    proof (cases "remaining_quantity ?st = 0")
      case True
      have "process_buy_loop order i (Suc n) st = (None, ?st)"
        unfolding step using True by simp
      also have "?st = process_buy_result order (Suc i) ?st"
        using True i len by (simp add: process_buy_result_done)
      finally show ?thesis .
    next
      case False
      have "process_buy_loop order i (Suc n) st = process_buy_loop order (Suc i) n ?st"
        unfolding step using False by simp
      also have "\<dots> = (None, process_buy_result order (Suc i) ?st)"
        using Suc.prems(1) len rest vrest rem by (intro Suc.IH) simp_all
      finally show ?thesis .
    qed
    also have "process_buy_result order (Suc i) ?st = process_buy_result order i st"
      using i True by (intro process_buy_result_match) auto
    finally show ?thesis .
  qed
qed

lemma create_sell_ok:
  assumes "valid_resting BUY r" "order_type order = SELL" "price order > 0" "agent_id order \<ge> 0"
    and "0 < rem" "rem \<le> quantity order"
  shows "create_from_orders tid r order (min rem (quantity r)) = Inr (service_sell_trade order tid r (min rem (quantity r)))"
  using assms
  by (auto simp add: create_from_orders_def Trade_init_def is_buy_def is_sell_def
      valid_resting_def service_sell_trade_def min_def)

lemma process_sell_result_skip:
  assumes "i < length (buy_orders (book st))"
    and "\<not> (price (buy_orders (book st) ! i) \<ge> price order \<and> remaining_quantity st > 0)"
  shows "process_sell_result order (Suc i) st = process_sell_result order i st"
proof -
  have d: "drop i (buy_orders (book st)) = buy_orders (book st) ! i # drop (Suc i) (buy_orders (book st))"
    using assms(1) by (simp add: Cons_nth_drop_Suc)
  from assms(2) consider "\<not> price (buy_orders (book st) ! i) \<ge> price order" | "\<not> remaining_quantity st > 0"
    by blast
  then show ?thesis
  proof cases
    case 1
    then show ?thesis
      unfolding process_sell_result_def Let_def d using assms(1)
      by (simp add: take_Suc_conv_app_nth crosses_sell_def)
  next
    case 2
    then show ?thesis
      unfolding process_sell_result_def Let_def d using assms(1)
      by (simp add: take_Suc_conv_app_nth crosses_sell_def)
  qed
qed

lemma process_sell_result_done:
  assumes "remaining_quantity st \<le> 0" "i \<le> length (buy_orders (book st))"
  shows "process_sell_result order i st = st"
  using assms by (simp add: process_sell_result_def Let_def fills_done)

lemma process_sell_result_match:
  assumes "i < length (buy_orders (book st))"
    and "price (buy_orders (book st) ! i) \<ge> price order" "remaining_quantity st > 0"
  shows "process_sell_result order (Suc i)
           (process_sell_match order i
              (service_sell_trade order (next_trade_id (book st)) (buy_orders (book st) ! i)
                 (min (remaining_quantity st) (quantity (buy_orders (book st) ! i)))) st)
         = process_sell_result order i st"
proof -
  have d: "drop i (buy_orders (book st)) = buy_orders (book st) ! i # drop (Suc i) (buy_orders (book st))"
    using assms(1) by (simp add: Cons_nth_drop_Suc)
  show ?thesis
    unfolding process_sell_result_def process_sell_match_def Let_def d using assms
    by (simp add: take_Suc_conv_app_nth crosses_sell_def)
qed

lemma process_sell_loop_char:
  assumes "i + n = length (buy_orders (book st))"
    and "list_all (valid_resting BUY) (drop i (buy_orders (book st)))"
    and "order_type order = SELL" "price order > 0" "agent_id order \<ge> 0"
    and "remaining_quantity st \<le> quantity order"
  shows "process_sell_loop order i n st = (None, process_sell_result order i st)"
  using assms(1,2,6)
proof (induction n arbitrary: i st)
  case 0
  then show ?case by (simp add: process_sell_result_def)
next
  case (Suc n)
  let ?xs = "buy_orders (book st)"
  let ?r = "?xs ! i"
  from Suc.prems have i: "i < length ?xs" by simp
  have d: "drop i ?xs = ?r # drop (Suc i) ?xs"
    using i by (simp add: Cons_nth_drop_Suc)
  from Suc.prems(2) have vr: "valid_resting BUY ?r"
    and vrest: "list_all (valid_resting BUY) (drop (Suc i) ?xs)"
    unfolding d by simp_all
  show ?case
  proof (cases "price (buy_orders (book st) ! i) \<ge> price order \<and> remaining_quantity st > 0")
    case False
    have "process_sell_loop order i (Suc n) st = process_sell_loop order (Suc i) n st"
      using False by (rule process_sell_loop_skip)
    also have "\<dots> = (None, process_sell_result order (Suc i) st)"
      using Suc.prems vrest by (intro Suc.IH) simp_all
    also have "process_sell_result order (Suc i) st = process_sell_result order i st"
      using i False by (rule process_sell_result_skip)
    finally show ?thesis .
  next
    case True
    let ?q = "min (remaining_quantity st) (quantity ?r)"
    let ?t = "service_sell_trade order (next_trade_id (book st)) ?r ?q"
    let ?st = "process_sell_match order i ?t st"
    have q: "0 < ?q" using True vr by (simp add: valid_resting_def)
    have cr: "(let b = book st; buy_order = buy_orders b ! i;
        trade_qty = min (remaining_quantity st) (quantity buy_order)
        in create_from_orders (next_trade_id b) buy_order order trade_qty) = Inr ?t"
      unfolding Let_def
      using create_sell_ok[OF vr assms(3,4,5), of "remaining_quantity st" "next_trade_id (book st)"]
        True Suc.prems(3) by simp
    have len: "length (buy_orders (book ?st)) = length ?xs"
      by (simp add: process_sell_match_def Let_def)
    have rest: "drop (Suc i) (buy_orders (book ?st)) = drop (Suc i) ?xs"
      by (simp add: process_sell_match_def Let_def)
    have rem: "remaining_quantity ?st \<le> quantity order"
      using q Suc.prems(3) by (simp add: process_sell_match_def Let_def min_def)
    have step: "process_sell_loop order i (Suc n) st =
        (if remaining_quantity ?st = 0 then (None, ?st) else process_sell_loop order (Suc i) n ?st)"
      using True cr by (rule process_sell_loop_match)
    have "process_sell_loop order i (Suc n) st = (None, process_sell_result order (Suc i) ?st)"
    proof (cases "remaining_quantity ?st = 0")
      case True
      have "process_sell_loop order i (Suc n) st = (None, ?st)"
        unfolding step using True by simp
      also have "?st = process_sell_result order (Suc i) ?st"
        using True i len by (simp add: process_sell_result_done)
      finally show ?thesis .
    next
      case False
      have "process_sell_loop order i (Suc n) st = process_sell_loop order (Suc i) n ?st"
        unfolding step using False by simp
      also have "\<dots> = (None, process_sell_result order (Suc i) ?st)"
        using Suc.prems(1) len rest vrest rem by (intro Suc.IH) simp_all
      finally show ?thesis .
    qed
    also have "process_sell_result order (Suc i) ?st = process_sell_result order i st"
      using i True by (intro process_sell_result_match) auto
    finally show ?thesis .
  qed
qed

section \<open>Supporting lemmas\<close>

subsection \<open>History buffers and volatility\<close>

lemma limit_history_trailing:
  assumes "2 \<le> cap"
  shows "limit_history cap (xs @ [x]) = capped_append cap xs x"
proof -
  from assms have "0 < cap div 2" by simp
  then show ?thesis
    by (simp add: limit_history_def capped_append_def trailing_def slice_last_def Let_def)
qed

lemma full_simulator_length:
  "length (sim_price_history (update_statistics full_simulator [])) = 1000"
  by (simp add: update_statistics_def full_simulator_def default_simulator_def Let_def
      slice_last_def OrderBook_init_def get_spread_def get_best_bid_def get_best_ask_def
      truthy_def)

lemma price_changes_returns:
  "list_all (\<lambda>p. 0 < p) ps \<Longrightarrow> price_changes ps = Inr (step_returns ps)"
  by (induction ps rule: price_changes.induct) (auto simp: step_returns_def)

lemma slice_last_trailing: "slice_last 5 xs = trailing 5 xs"
  by (simp add: slice_last_def trailing_def)

lemma list_all_trailing: "list_all P xs \<Longrightarrow> list_all P (trailing n xs)"
  by (auto simp: trailing_def list_all_iff dest: in_set_dropD)

lemma length_step_returns: "length (step_returns ps) = length ps - 1"
  by (simp add: step_returns_def)

lemma clamp_max_min: "a \<le> b \<Longrightarrow> max a (min y b) = clamp a b y"
  by (simp add: clamp_def max_def min_def)

subsection \<open>The ledger of the submitting agent\<close>

lemma made_buy_trades_buyer:
  "list_all (\<lambda>t. buyer_id t = agent_id order) (made_trades (buy_trade order) tid rs fs)"
  by (induction "buy_trade order" tid rs fs rule: made_trades.induct) (auto simp: buy_trade_def)

lemma made_sell_trades_seller:
  "list_all (\<lambda>t. seller_id t = agent_id order) (made_trades (sell_trade order) tid rs fs)"
  by (induction "sell_trade order" tid rs fs rule: made_trades.induct)
     (auto simp: sell_trade_def)

lemma add_order_buy_trades:
  "order_type order = BUY \<Longrightarrow>
   list_all (\<lambda>t. buyer_id t = agent_id order) (fst (OrderBook_add_order b order))"
  by (simp add: OrderBook_add_order_buy Let_def made_buy_trades_buyer)

lemma add_order_sell_trades:
  "order_type order \<noteq> BUY \<Longrightarrow>
   list_all (\<lambda>t. seller_id t = agent_id order) (fst (OrderBook_add_order b order))"
  by (simp add: OrderBook_add_order_sell Let_def made_sell_trades_seller)

lemma foldl_apply_trade_buyer:
  "list_all (\<lambda>t. buyer_id t = ident a) ts \<Longrightarrow>
   foldl apply_trade a ts =
     a\<lparr>balance := balance a - traded_value ts, position := position a + traded_quantity ts\<rparr>"
  by (induction ts arbitrary: a)
     (simp_all add: traded_value_def traded_quantity_def apply_trade_def update_after_trade_def
        algebra_simps)

lemma foldl_apply_trade_seller:
  "list_all (\<lambda>t. buyer_id t \<noteq> ident a \<and> seller_id t = ident a) ts \<Longrightarrow>
   foldl apply_trade a ts =
     a\<lparr>balance := balance a + traded_value ts, position := position a - traded_quantity ts\<rparr>"
  by (induction ts arbitrary: a)
     (simp_all add: traded_value_def traded_quantity_def apply_trade_def update_after_trade_def
        algebra_simps)

lemma cycle_result_eq:
  "cycle_result =
    ([(new_agent 0)\<lparr>total_orders_count := 1, sell_orders_count := 1\<rparr>,
      (new_agent 1)\<lparr>total_orders_count := 1, buy_orders_count := 1, balance := 9000,
         position := 10\<rparr>],
     (OrderBook_init 100)\<lparr>next_order_id := 3, next_trade_id := 2, current_price := 100,
        trades := [\<lparr>trade_id = 1, trade_price = 100, trade_quantity = 10, buyer_id = 1,
                     seller_id = 0\<rparr>]\<rparr>,
     [\<lparr>trade_id = 1, trade_price = 100, trade_quantity = 10, buyer_id = 1, seller_id = 0\<rparr>])"
  by (simp add: cycle_result_def resting_sell_def taking_buy_def new_agent_def generate_order_def
      OrderBook_add_order_def OrderBook_init_def remove_orders_def pop_def sort_by_price_def
      sort_by_price_reverse_def Let_def apply_trade_def update_after_trade_def)

lemma submitted_taking_buy:
  "submitted (new_agent 1) taking_buy
      ((OrderBook_init 100)\<lparr>sell_orders := [resting_sell\<lparr>order_id := 1\<rparr>],
         next_order_id := 2\<rparr>)
    = [\<lparr>trade_id = 1, trade_price = 100, trade_quantity = 10, buyer_id = 1, seller_id = 0\<rparr>]"
  by (simp add: submitted_def resting_sell_def taking_buy_def new_agent_def
      OrderBook_add_order_def OrderBook_init_def remove_orders_def pop_def sort_by_price_def
      sort_by_price_reverse_def Let_def)

subsection \<open>The current price and the queries\<close>

lemma process_buy_order_current_price:
  "current_price (snd (process_buy_order b order)) = current_price b"
proof -
  let ?st0 = "\<lparr>remaining_quantity = quantity order, orders_to_remove = [],
              new_trades = [], book = b\<rparr>"
  obtain e st where l: "process_buy_loop order 0 (length (sell_orders b)) ?st0 = (e, st)"
    by (cases "process_buy_loop order 0 (length (sell_orders b)) ?st0") auto
  from process_buy_loop_frame[OF _ l] have "current_price (book st) = current_price b" by simp
  then show ?thesis
    unfolding process_buy_order_def l by (cases e) (simp_all add: Let_def)
qed

lemma process_sell_order_current_price:
  "current_price (snd (process_sell_order b order)) = current_price b"
proof -
  let ?st0 = "\<lparr>remaining_quantity = quantity order, orders_to_remove = [],
              new_trades = [], book = b\<rparr>"
  obtain e st where l: "process_sell_loop order 0 (length (buy_orders b)) ?st0 = (e, st)"
    by (cases "process_sell_loop order 0 (length (buy_orders b)) ?st0") auto
  from process_sell_loop_frame[OF _ l] have "current_price (book st) = current_price b" by simp
  then show ?thesis
    unfolding process_sell_order_def l by (cases e) (simp_all add: Let_def)
qed

lemma OrderBook_add_order_current_price:
  "current_price (snd (OrderBook_add_order b order)) =
     (if fst (OrderBook_add_order b order) = [] then current_price b
      else trade_price (last (fst (OrderBook_add_order b order))))"
  by (cases "order_type order = BUY")
     (simp_all add: OrderBook_add_order_buy OrderBook_add_order_sell Let_def)

lemma OrderBookService_add_order_current_price:
  "current_price (snd (OrderBookService_add_order b order)) =
     (case fst (OrderBookService_add_order b order) of
        Inl e \<Rightarrow> current_price b
      | Inr ts \<Rightarrow> if ts = [] then current_price b else trade_price (last ts))"
proof -
  let ?p = "if order_type order = BUY then process_buy_order b order
            else process_sell_order b order"
  have cp: "current_price (snd ?p) = current_price b"
    by (simp add: process_buy_order_current_price process_sell_order_current_price)
  obtain r b' where p: "?p = (r, b')" by (cases ?p) auto
  with cp have "current_price b' = current_price b" by simp
  then show ?thesis
    unfolding OrderBookService_add_order_def p by (cases r) simp_all
qed

lemma queries_frame:
  "snd (get_best_bid b) = b" "snd (get_best_ask b) = b" "snd (get_spread b) = b"
  by (simp_all add: get_best_bid_def get_best_ask_def get_spread_def Let_def)

subsection \<open>Sorted books\<close>

lemma buy_before_key:
  "buy_before a b = (\<lambda>(p, t) (q, u). q < p \<or> (p = q \<and> t \<le> u)) (priority_key a) (priority_key b)"
  by (simp add: buy_before_def priority_key_def)

lemma sell_before_key:
  "sell_before a b = (\<lambda>(p, t) (q, u). p < q \<or> (p = q \<and> t \<le> u)) (priority_key a) (priority_key b)"
  by (simp add: sell_before_def priority_key_def)

lemma sorted_buy_same_keys:
  assumes "map priority_key xs = map priority_key ys"
  shows "sorted_wrt buy_before xs = sorted_wrt buy_before ys"
proof -
  let ?P = "\<lambda>(p::real, t::real) (q, u). q < p \<or> (p = q \<and> t \<le> u)"
  have "sorted_wrt buy_before zs = sorted_wrt ?P (map priority_key zs)" for zs
    unfolding sorted_wrt_map by (simp add: buy_before_key[abs_def])
  with assms show ?thesis by simp
qed

lemma sorted_sell_same_keys:
  assumes "map priority_key xs = map priority_key ys"
  shows "sorted_wrt sell_before xs = sorted_wrt sell_before ys"
proof -
  let ?P = "\<lambda>(p::real, t::real) (q, u). p < q \<or> (p = q \<and> t \<le> u)"
  have "sorted_wrt sell_before zs = sorted_wrt ?P (map priority_key zs)" for zs
    unfolding sorted_wrt_map by (simp add: sell_before_key[abs_def])
  with assms show ?thesis by simp
qed

lemma sorted_wrt_pop:
  assumes "sorted_wrt P xs"
  shows "sorted_wrt P (pop i xs)"
proof -
  from assms have "sorted_wrt P (take i xs @ drop i xs)" by simp
  then have a: "sorted_wrt P (take i xs)"
    and c: "\<forall>x\<in>set (take i xs). \<forall>y\<in>set (drop i xs). P x y"
    unfolding sorted_wrt_append by blast+
  have "drop (Suc i) xs = drop 1 (drop i xs)" by simp
  then have sub: "set (drop (Suc i) xs) \<subseteq> set (drop i xs)"
    by (metis set_drop_subset)
  have "sorted_wrt P (drop (Suc i) xs)"
    using assms by (rule sorted_wrt_drop)
  with a c sub show ?thesis
    unfolding pop_def sorted_wrt_append by blast
qed

lemma sorted_wrt_remove_orders:
  "sorted_wrt P xs \<Longrightarrow> sorted_wrt P (remove_orders idxs xs)"
  by (induction idxs) (simp_all add: remove_orders_Cons sorted_wrt_pop)

lemma priority_key_reduced:
  "length fs = length rs \<Longrightarrow> map priority_key (reduced rs fs) = map priority_key rs"
  by (induction rs fs rule: reduced.induct) (simp_all add: priority_key_def)

lemma survivors_remove:
  "length fs = length rs \<Longrightarrow> survivors rs fs = remove_orders (exhausted 0 rs fs) (reduced rs fs)"
  using remove_exhausted[of fs rs "[]"] by simp

lemma sorted_buy_survivors:
  "length fs = length rs \<Longrightarrow> sorted_wrt buy_before rs \<Longrightarrow> sorted_wrt buy_before (survivors rs fs)"
  by (simp add: survivors_remove sorted_wrt_remove_orders
      sorted_buy_same_keys[OF priority_key_reduced])

lemma sorted_sell_survivors:
  "length fs = length rs \<Longrightarrow> sorted_wrt sell_before rs \<Longrightarrow> sorted_wrt sell_before (survivors rs fs)"
  by (simp add: survivors_remove sorted_wrt_remove_orders
      sorted_sell_same_keys[OF priority_key_reduced])

lemma set_insert_buy_order: "set (insert_buy_order order xs) = insert order (set xs)"
  by (induction xs) auto

lemma set_insert_sell_order: "set (insert_sell_order order xs) = insert order (set xs)"
  by (induction xs) auto

lemma sorted_insert_buy_order:
  "sorted_wrt buy_before xs \<Longrightarrow> list_all (\<lambda>r. timestamp r \<le> timestamp order) xs \<Longrightarrow>
   sorted_wrt buy_before (insert_buy_order order xs)"
  by (induction xs) (auto simp: set_insert_buy_order buy_before_def)

lemma sorted_insert_sell_order:
  "sorted_wrt sell_before xs \<Longrightarrow> list_all (\<lambda>r. timestamp r \<le> timestamp order) xs \<Longrightarrow>
   sorted_wrt sell_before (insert_sell_order order xs)"
  by (induction xs) (auto simp: set_insert_sell_order sell_before_def)

lemma sort_append_insert_sell:
  "sorted (map price xs) \<Longrightarrow> sort_key price (xs @ [order]) = insert_sell_order order xs"
proof (induction xs)
  case Nil
  then show ?case by simp
next
  case (Cons x xs)
  then have IH: "sort_key price (xs @ [order]) = insert_sell_order order xs"
    and le: "\<forall>y\<in>set xs. price x \<le> price y" by auto
  show ?case
  proof (cases "price order < price x")
    case True
    with le have "insert_sell_order order xs = order # xs"
      by (cases xs) auto
    with True le IH show ?thesis by (simp add: insort_is_Cons)
  next
    case False
    with le have "\<forall>y\<in>set (insert_sell_order order xs). price x \<le> price y"
      by (auto simp: set_insert_sell_order)
    with False IH show ?thesis by (simp add: insort_is_Cons)
  qed
qed

lemma sort_append_insert_buy:
  "sorted (map (\<lambda>r. - price r) xs) \<Longrightarrow>
   sort_key (\<lambda>r. - price r) (xs @ [order]) = insert_buy_order order xs"
proof (induction xs)
  case Nil
  then show ?case by simp
next
  case (Cons x xs)
  then have IH: "sort_key (\<lambda>r. - price r) (xs @ [order]) = insert_buy_order order xs"
    and le: "\<forall>y\<in>set xs. price y \<le> price x" by auto
  show ?case
  proof (cases "price order > price x")
    case True
    with le have "insert_buy_order order xs = order # xs"
      by (cases xs) auto
    with True le IH show ?thesis by (simp add: insort_is_Cons)
  next
    case False
    with le have "\<forall>y\<in>set (insert_buy_order order xs). - price x \<le> - price y"
      by (auto simp: set_insert_buy_order)
    with False IH show ?thesis by (simp add: insort_is_Cons)
  qed
qed

lemma buy_sorted_prices: "sorted_wrt buy_before xs \<Longrightarrow> sorted (map (\<lambda>r. - price r) xs)"
  by (induction xs) (auto simp: buy_before_def)

lemma sell_sorted_prices: "sorted_wrt sell_before xs \<Longrightarrow> sorted (map price xs)"
  by (induction xs) (auto simp: sell_before_def)


lemma book_sorted_OrderBook_add_order:
  assumes "book_sorted b" "arrives_last b order"
  shows "book_sorted (snd (OrderBook_add_order b order))"
proof (cases "order_type order = BUY")
  case True
  let ?o = "order\<lparr>quantity := quantity order
      - total_filled (fills (crosses_buy order) (quantity order) (sell_orders b))\<rparr>"
  from assms have own: "sorted_wrt buy_before (buy_orders b)"
    and opp: "sorted_wrt sell_before (sell_orders b)"
    and ts: "list_all (\<lambda>r. timestamp r \<le> timestamp ?o) (buy_orders b)"
    by (simp_all add: book_sorted_def arrives_last_def)
  have "sorted_wrt buy_before (sort_by_price_reverse (buy_orders b @ [?o]))"
    unfolding sort_by_price_reverse_def sort_append_insert_buy[OF buy_sorted_prices[OF own]]
    using own ts by (rule sorted_insert_buy_order)
  with True own opp show ?thesis
    by (simp add: OrderBook_add_order_buy Let_def book_sorted_def sorted_sell_survivors)
next
  case False
  let ?o = "order\<lparr>quantity := quantity order
      - total_filled (fills (crosses_sell order) (quantity order) (buy_orders b))\<rparr>"
  from assms have own: "sorted_wrt sell_before (sell_orders b)"
    and opp: "sorted_wrt buy_before (buy_orders b)"
    and ts: "list_all (\<lambda>r. timestamp r \<le> timestamp ?o) (sell_orders b)"
    by (simp_all add: book_sorted_def arrives_last_def)
  have "sorted_wrt sell_before (sort_by_price (sell_orders b @ [?o]))"
    unfolding sort_by_price_def sort_append_insert_sell[OF sell_sorted_prices[OF own]]
    using own ts by (rule sorted_insert_sell_order)
  with False own opp show ?thesis
    by (simp add: OrderBook_add_order_sell Let_def book_sorted_def sorted_buy_survivors)
qed

lemma book_sorted_process_buy_order:
  assumes "book_sorted b" "arrives_last b order"
  shows "book_sorted (snd (process_buy_order b order))"
proof -
  let ?st0 = "\<lparr>remaining_quantity = quantity order, orders_to_remove = [],
              new_trades = [], book = b\<rparr>"
  obtain e st where l: "process_buy_loop order 0 (length (sell_orders b)) ?st0 = (e, st)"
    by (cases "process_buy_loop order 0 (length (sell_orders b)) ?st0") auto
  from process_buy_loop_frame[OF _ l]
  have own: "buy_orders (book st) = buy_orders b"
    and keys: "map priority_key (sell_orders (book st)) = map priority_key (sell_orders b)"
    by (simp_all add: priority_key_def[abs_def])
  from assms have sb: "sorted_wrt buy_before (buy_orders b)"
    and ss: "sorted_wrt sell_before (sell_orders (book st))"
    and ts: "list_all (\<lambda>r. timestamp r \<le> timestamp (order\<lparr>quantity := remaining_quantity st\<rparr>))
               (buy_orders b)"
    by (simp_all add: book_sorted_def arrives_last_def sorted_sell_same_keys[OF keys])
  show ?thesis
    unfolding process_buy_order_def l
    using sb ss own sorted_insert_buy_order[OF sb ts]
    by (cases e) (simp_all add: Let_def book_sorted_def sorted_wrt_remove_orders)
qed

lemma book_sorted_process_sell_order:
  assumes "book_sorted b" "arrives_last b order"
  shows "book_sorted (snd (process_sell_order b order))"
proof -
  let ?st0 = "\<lparr>remaining_quantity = quantity order, orders_to_remove = [],
              new_trades = [], book = b\<rparr>"
  obtain e st where l: "process_sell_loop order 0 (length (buy_orders b)) ?st0 = (e, st)"
    by (cases "process_sell_loop order 0 (length (buy_orders b)) ?st0") auto
  from process_sell_loop_frame[OF _ l]
  have own: "sell_orders (book st) = sell_orders b"
    and keys: "map priority_key (buy_orders (book st)) = map priority_key (buy_orders b)"
    by (simp_all add: priority_key_def[abs_def])
  from assms have ss: "sorted_wrt sell_before (sell_orders b)"
    and sb: "sorted_wrt buy_before (buy_orders (book st))"
    and ts: "list_all (\<lambda>r. timestamp r \<le> timestamp (order\<lparr>quantity := remaining_quantity st\<rparr>))
               (sell_orders b)"
    by (simp_all add: book_sorted_def arrives_last_def sorted_buy_same_keys[OF keys])
  show ?thesis
    unfolding process_sell_order_def l
    using sb ss own sorted_insert_sell_order[OF ss ts]
    by (cases e) (simp_all add: Let_def book_sorted_def sorted_wrt_remove_orders)
qed

lemma book_sorted_OrderBookService_add_order:
  assumes "book_sorted b" "arrives_last b order"
  shows "book_sorted (snd (OrderBookService_add_order b order))"
proof -
  let ?p = "if order_type order = BUY then process_buy_order b order
            else process_sell_order b order"
  have s: "book_sorted (snd ?p)"
    using assms by (simp add: book_sorted_process_buy_order book_sorted_process_sell_order)
  obtain r b' where p: "?p = (r, b')" by (cases ?p) auto
  with s have "book_sorted b'" by simp
  then show ?thesis
    unfolding OrderBookService_add_order_def p by (cases r) (simp_all add: book_sorted_def)
qed

subsection \<open>Conservation of quantity\<close>

lemma crosses_BUY: "order_type order = BUY \<Longrightarrow> crosses order = crosses_buy order"
  by (simp add: crosses_def crosses_buy_def fun_eq_iff)

lemma crosses_SELL: "order_type order \<noteq> BUY \<Longrightarrow> crosses order = crosses_sell order"
  by (simp add: crosses_def crosses_sell_def fun_eq_iff)

lemma made_trades_parties:
  assumes "\<And>tid r q. party (mk tid r q) = agent_id r \<and> trade_quantity (mk tid r q) = q"
  shows "map (\<lambda>tr. (party tr, trade_quantity tr)) (made_trades mk tid rs fs)
     = map (\<lambda>(r, q). (agent_id r, q)) (matched rs fs)"
  using assms by (induction mk tid rs fs rule: made_trades.induct) simp_all

lemma made_trades_quantity:
  assumes "length fs = length rs" and "\<And>tid r q. trade_quantity (mk tid r q) = q"
  shows "traded_quantity (made_trades mk tid rs fs) = total_filled fs"
  using assms
  by (induction mk tid rs fs rule: made_trades.induct) (simp_all add: traded_quantity_def)

lemma total_filled_le: "0 \<le> rem \<Longrightarrow> total_filled (fills c rem rs) \<le> rem"
proof (induction rs arbitrary: rem)
  case Nil
  then show ?case by simp
next
  case (Cons r rs)
  show ?case
  proof (cases "c r \<and> rem > 0")
    case True
    let ?q = "min rem (quantity r)"
    have "0 \<le> rem - ?q" by simp
    from Cons.IH[OF this] True show ?thesis by simp
  next
    case False
    with Cons show ?thesis by auto
  qed
qed

lemma valid_survivors:
  "list_all (valid_resting t) rs \<Longrightarrow> list_all (valid_resting t) (survivors rs (fills c rem rs))"
  by (induction rs arbitrary: rem) (auto simp: valid_resting_def min_def)

lemma mset_insert_buy_order: "mset (insert_buy_order order xs) = add_mset order (mset xs)"
  by (induction xs) auto

lemma mset_insert_sell_order: "mset (insert_sell_order order xs) = add_mset order (mset xs)"
  by (induction xs) auto

lemma process_buy_order_valid:
  assumes "order_type order = BUY" "valid_order order"
    and "list_all (valid_resting SELL) (sell_orders b)"
  shows "process_buy_order b order =
    (let rs = sell_orders b;
         fs = fills (crosses_buy order) (quantity order) rs;
         ts = made_trades (buy_trade order) (next_trade_id b) rs fs;
         rem = quantity order - total_filled fs
     in (Inr ts, b\<lparr>trades := record_trades (max_trades_history b) (trades b) ts,
                next_trade_id := next_trade_id b + int (length ts),
                sell_orders := survivors rs fs,
                buy_orders := (if rem > 0
                   then insert_buy_order (order\<lparr>quantity := rem\<rparr>) (buy_orders b)
                   else buy_orders b)\<rparr>))"
proof -
  let ?st0 = "\<lparr>remaining_quantity = quantity order, orders_to_remove = [],
              new_trades = [], book = b\<rparr>"
  have "process_buy_loop order 0 (length (sell_orders b)) ?st0
      = (None, process_buy_result order 0 ?st0)"
    using assms by (intro process_buy_loop_char) (simp_all add: valid_order_def)
  then show ?thesis
    using remove_exhausted[of "fills (crosses_buy order) (quantity order) (sell_orders b)"
      "sell_orders b" "[]"]
    by (simp add: process_buy_order_def process_buy_result_def Let_def)
qed

lemma process_sell_order_valid:
  assumes "order_type order = SELL" "valid_order order"
    and "list_all (valid_resting BUY) (buy_orders b)"
  shows "process_sell_order b order =
    (let rs = buy_orders b;
         fs = fills (crosses_sell order) (quantity order) rs;
         ts = made_trades (service_sell_trade order) (next_trade_id b) rs fs;
         rem = quantity order - total_filled fs
     in (Inr ts, b\<lparr>trades := record_trades (max_trades_history b) (trades b) ts,
                next_trade_id := next_trade_id b + int (length ts),
                buy_orders := survivors rs fs,
                sell_orders := (if rem > 0
                   then insert_sell_order (order\<lparr>quantity := rem\<rparr>) (sell_orders b)
                   else sell_orders b)\<rparr>))"
proof -
  let ?st0 = "\<lparr>remaining_quantity = quantity order, orders_to_remove = [],
              new_trades = [], book = b\<rparr>"
  have "process_sell_loop order 0 (length (buy_orders b)) ?st0
      = (None, process_sell_result order 0 ?st0)"
    using assms by (intro process_sell_loop_char) (simp_all add: valid_order_def)
  then show ?thesis
    using remove_exhausted[of "fills (crosses_sell order) (quantity order) (buy_orders b)"
      "buy_orders b" "[]"]
    by (simp add: process_sell_order_def process_sell_result_def Let_def)
qed



lemma conserves_OrderBook_add_order:
  assumes "0 \<le> quantity order"
  shows "conserves order b (fst (OrderBook_add_order b order))
           (snd (OrderBook_add_order b order))"
proof (cases "order_type order = BUY")
  case True
  let ?rs = "sell_orders b"
  let ?fs = "fills (crosses_buy order) (quantity order) ?rs"
  let ?ts = "made_trades (buy_trade order) (next_trade_id b) ?rs ?fs"
  have q: "traded_quantity ?ts = total_filled ?fs"
    by (rule made_trades_quantity) (simp_all add: buy_trade_def)
  have p: "map (\<lambda>tr. (seller_id tr, trade_quantity tr)) ?ts
      = map (\<lambda>(r, q). (agent_id r, q)) (matched ?rs ?fs)"
    by (rule made_trades_parties) (simp add: buy_trade_def)
  show ?thesis
    using True q p total_filled_le[OF assms, of "crosses_buy order" ?rs]
    by (simp add: OrderBook_add_order_buy conserves_def Let_def planned_fills_def
        remainder_def opposing_orders_def own_orders_def crosses_BUY resting_party_def
        sort_by_price_reverse_def)
next
  case False
  let ?rs = "buy_orders b"
  let ?fs = "fills (crosses_sell order) (quantity order) ?rs"
  let ?ts = "made_trades (sell_trade order) (next_trade_id b) ?rs ?fs"
  have q: "traded_quantity ?ts = total_filled ?fs"
    by (rule made_trades_quantity) (simp_all add: sell_trade_def)
  have p: "map (\<lambda>tr. (buyer_id tr, trade_quantity tr)) ?ts
      = map (\<lambda>(r, q). (agent_id r, q)) (matched ?rs ?fs)"
    by (rule made_trades_parties) (simp add: sell_trade_def)
  show ?thesis
    using False q p total_filled_le[OF assms, of "crosses_sell order" ?rs]
    by (simp add: OrderBook_add_order_sell conserves_def Let_def planned_fills_def
        remainder_def opposing_orders_def own_orders_def crosses_SELL resting_party_def
        sort_by_price_def)
qed


lemma list_all_sort_key: "list_all P (sort_key f xs) = list_all P xs"
  by (simp add: list_all_iff)

lemma list_all_insert_buy_order:
  "list_all P (insert_buy_order order xs) = (P order \<and> list_all P xs)"
  by (induction xs) auto

lemma list_all_insert_sell_order:
  "list_all P (insert_sell_order order xs) = (P order \<and> list_all P xs)"
  by (induction xs) auto

lemma valid_rested:
  "valid_order order \<Longrightarrow> 0 < rem \<Longrightarrow> valid_resting (order_type order) (order\<lparr>quantity := rem\<rparr>)"
  by (simp add: valid_order_def valid_resting_def)

lemma valid_book_OrderBook_add_order:
  assumes "valid_order order" "valid_book b"
  shows "valid_book (snd (OrderBook_add_order b order))"
proof (cases "order_type order = BUY")
  case True
  from assms(2) have "list_all (valid_resting SELL)
      (survivors (sell_orders b) (fills (crosses_buy order) (quantity order) (sell_orders b)))"
    by (simp add: valid_book_def valid_survivors)
  with True assms valid_rested[OF assms(1)] show ?thesis
    by (simp add: OrderBook_add_order_buy Let_def valid_book_def sort_by_price_reverse_def
        list_all_sort_key)
next
  case False
  then have t: "order_type order = SELL" by (cases "order_type order") auto
  from assms(2) have "list_all (valid_resting BUY)
      (survivors (buy_orders b) (fills (crosses_sell order) (quantity order) (buy_orders b)))"
    by (simp add: valid_book_def valid_survivors)
  with t assms valid_rested[OF assms(1)] show ?thesis
    by (simp add: OrderBook_add_order_sell Let_def valid_book_def sort_by_price_def
        list_all_sort_key)
qed

lemma OrderBookService_add_order_valid:
  assumes "valid_order order" "valid_book b"
  shows "\<exists>ts. fst (OrderBookService_add_order b order) = Inr ts
      \<and> conserves order b ts (snd (OrderBookService_add_order b order))
      \<and> valid_book (snd (OrderBookService_add_order b order))"
proof (cases "order_type order = BUY")
  case True
  let ?rs = "sell_orders b"
  let ?fs = "fills (crosses_buy order) (quantity order) ?rs"
  let ?ts = "made_trades (buy_trade order) (next_trade_id b) ?rs ?fs"
  from assms have q0: "0 \<le> quantity order" and vs: "list_all (valid_resting SELL) ?rs"
    and vb: "list_all (valid_resting BUY) (buy_orders b)"
    by (simp_all add: valid_order_def valid_book_def)
  have q: "traded_quantity ?ts = total_filled ?fs"
    by (rule made_trades_quantity) (simp_all add: buy_trade_def)
  have p: "map (\<lambda>tr. (seller_id tr, trade_quantity tr)) ?ts
      = map (\<lambda>(r, q). (agent_id r, q)) (matched ?rs ?fs)"
    by (rule made_trades_parties) (simp add: buy_trade_def)
  have v: "list_all (valid_resting SELL) (survivors ?rs ?fs)"
    using vs by (rule valid_survivors)
  show ?thesis
    using True q p v vb total_filled_le[OF q0, of "crosses_buy order" ?rs]
      valid_rested[OF assms(1)]
    by (simp add: OrderBookService_add_order_def process_buy_order_valid[OF True assms(1) vs]
        conserves_def Let_def planned_fills_def remainder_def opposing_orders_def
        own_orders_def crosses_BUY resting_party_def mset_insert_buy_order valid_book_def
        list_all_insert_buy_order)
next
  case False
  then have t: "order_type order = SELL" by (cases "order_type order") auto
  let ?rs = "buy_orders b"
  let ?fs = "fills (crosses_sell order) (quantity order) ?rs"
  let ?ts = "made_trades (service_sell_trade order) (next_trade_id b) ?rs ?fs"
  from assms have q0: "0 \<le> quantity order" and vs: "list_all (valid_resting BUY) ?rs"
    and vb: "list_all (valid_resting SELL) (sell_orders b)"
    by (simp_all add: valid_order_def valid_book_def)
  have q: "traded_quantity ?ts = total_filled ?fs"
    by (rule made_trades_quantity) (simp_all add: service_sell_trade_def)
  have p: "map (\<lambda>tr. (buyer_id tr, trade_quantity tr)) ?ts
      = map (\<lambda>(r, q). (agent_id r, q)) (matched ?rs ?fs)"
    by (rule made_trades_parties) (simp add: service_sell_trade_def)
  have v: "list_all (valid_resting BUY) (survivors ?rs ?fs)"
    using vs by (rule valid_survivors)
  show ?thesis
    using t q p v vb total_filled_le[OF q0, of "crosses_sell order" ?rs]
      valid_rested[OF assms(1)]
    by (simp add: OrderBookService_add_order_def process_sell_order_valid[OF t assms(1) vs]
        conserves_def Let_def planned_fills_def remainder_def opposing_orders_def
        own_orders_def crosses_SELL resting_party_def mset_insert_sell_order valid_book_def
        list_all_insert_sell_order)
qed

section \<open>The claims\<close>

subsection \<open>C1: the price of a trade\<close>

text \<open>
  C1. For every trade emitted by addOrder the price of the trade is the price of the order
  that was resting in the book, never the price of the incoming order. In
  \<^verbatim>\<open>OrderBookService\<close> this fails for an incoming sell order: \<^verbatim>\<open>_process_sell_order\<close>
  passes the incoming order as the sell order of \<^verbatim>\<open>create_from_orders\<close>, which prices
  the trade at the sell order. With \<^verbatim>\<open>Buy 15@100\<close> resting, \<^verbatim>\<open>Sell 10@95\<close> trades at 95
  in the service and at 100 in \<^verbatim>\<open>OrderBook.add_order\<close>.
\<close>

theorem C1_service_sell_trades_at_incoming_price:
  "price buy_100 = 100 \<and> price sell_95 = 95
   \<and> buy_orders bid_service = [buy_100]
   \<and> map_sum id (map trade_price) (fst (OrderBookService_add_order bid_service sell_95))
       = Inr [95]
   \<and> map trade_price (fst (OrderBook_add_order bid_book sell_95)) = [100]"
  unfolding bid_service_eq bid_book_eq
  by (simp add: order_defs service_eval book_eval)

subsection \<open>C2: orders with a non-positive price or quantity\<close>

text \<open>
  C2, as stated: addOrder fails with an error for an order with price \<open>\<le> 0\<close> or
  quantity \<open>\<le> 0\<close> and mutates neither book. \<^verbatim>\<open>OrderBook.add_order\<close> of
  \<^verbatim>\<open>order_book.py\<close> does not check its argument, and the \<^verbatim>\<open>Order\<close> class of that
  module has no check either: a buy order at price \<open>-1\<close> is accepted, no error is raised
  and the order rests in the buy book.
\<close>

theorem C2_add_order_accepts_counterexample:
  "price bad_buy \<le> 0
   \<and> buy_orders (OrderBook_init 100) = []
   \<and> OrderBook_add_order (OrderBook_init 100) bad_buy
       = ([], (OrderBook_init 100)\<lparr>buy_orders := [bad_buy]\<rparr>)"
  by (simp add: bad_buy_def OrderBook_add_order_def OrderBook_init_def
      remove_orders_def pop_def sort_by_price_def sort_by_price_reverse_def Let_def)

text \<open>
  C2, amended: \<^verbatim>\<open>add_order\<close> itself does not validate; in the package the check sits
  in the constructor of \<^verbatim>\<open>Order\<close>. Creating an order with price \<open>\<le> 0\<close> or quantity
  \<open>\<le> 0\<close> fails with \<^verbatim>\<open>ValueError\<close>, so creating and submitting it fails with that
  error before the order book service is touched: the service, and with it both books,
  is unchanged.
\<close>

theorem C2_order_construction_rejects:
  assumes "p \<le> 0 \<or> q \<le> 0"
  shows "Order_init i p q t a ts = Inl ValueError
    \<and> create_and_add_order b p q t a ts = (Inl ValueError, b)"
  using assms by (auto simp add: Order_init_def create_and_add_order_def)

theorem C2_order_construction_rejects_witness:
  "((- 1 :: real) \<le> 0 \<or> (5::int) \<le> 0)
   \<and> Order_init 1 (- 1) 5 BUY 0 1 = Inl ValueError
   \<and> create_and_add_order bid_service (- 1) 5 BUY 0 1 = (Inl ValueError, bid_service)"
  using C2_order_construction_rejects[of "- 1" 5 1 BUY 0 1 bid_service] by simp

subsection \<open>C3: the ledgers after a trade\<close>

text \<open>
  C3, as stated: for every trade of a cycle both parties are updated, also the party whose
  order was resting. \<^verbatim>\<open>run_cycle\<close> updates only the agent whose order it has just
  submitted. When agent 0 sells \<^verbatim>\<open>10@100\<close> (the order rests) and agent 1 then buys
  \<^verbatim>\<open>10@100\<close>, the trade has buyer 1 and seller 0; agent 1 ends with position 10 and
  cash 9000, agent 0 still has position 0 and cash 10000.
\<close>

theorem C3_resting_party_counterexample:
  "snd (snd cycle_result) =
     [\<lparr>trade_id = 1, trade_price = 100, trade_quantity = 10, buyer_id = 1, seller_id = 0\<rparr>]
   \<and> map ident (fst cycle_result) = [0, 1]
   \<and> map position (fst cycle_result) = [0, 10]
   \<and> map balance (fst cycle_result) = [10000, 9000]
   \<and> map position [new_agent 0, new_agent 1] = [0, 0]
   \<and> map balance [new_agent 0, new_agent 1] = [10000, 10000]"
  unfolding cycle_result_eq by (simp add: new_agent_def)

text \<open>
  C3, amended: for the trades that the order of an agent produces, that agent is
  updated: after its buy order its position has grown by the traded quantity and its cash
  has shrunk by the sum of \<open>price * quantity\<close>; after its sell order its position has
  shrunk and its cash has grown by these amounts (no trade being one of the agent with
  itself). Any iteration of the agent loop is the head of a call of \<open>agents_loop\<close>.
\<close>

theorem C3_submitting_agent_ledger:
  assumes "agents_loop (agent # rest) (Some order # intents) ob nt = (agents', ob', nt')"
    and "list_all (\<lambda>t. buyer_id t \<noteq> seller_id t) (submitted agent order ob)"
  shows "position (hd agents') =
           (if order_type order = BUY
            then position agent + traded_quantity (submitted agent order ob)
            else position agent - traded_quantity (submitted agent order ob))
       \<and> balance (hd agents') =
           (if order_type order = BUY
            then balance agent - traded_value (submitted agent order ob)
            else balance agent + traded_value (submitted agent order ob))"
proof -
  let ?o = "order\<lparr>agent_id := ident agent, order_id := next_order_id ob\<rparr>"
  let ?ob = "ob\<lparr>next_order_id := next_order_id ob + 1\<rparr>"
  let ?ts = "submitted agent order ob"
  let ?a = "snd (generate_order agent (Some order))"
  have a: "ident ?a = ident agent" "balance ?a = balance agent" "position ?a = position agent"
    by (simp_all add: generate_order_def)
  have hd: "hd agents' = foldl apply_trade ?a ?ts"
    using assms(1)
    by (auto simp add: generate_order_def submitted_def Let_def split: prod.splits if_splits)
  show ?thesis
  proof (cases "order_type order = BUY")
    case True
    then have "list_all (\<lambda>t. buyer_id t = ident ?a) ?ts"
      using add_order_buy_trades[of ?o ?ob] a(1) by (simp add: submitted_def)
    then show ?thesis using True a hd by (simp add: foldl_apply_trade_buyer)
  next
    case False
    then have "list_all (\<lambda>t. seller_id t = ident ?a) ?ts"
      using add_order_sell_trades[of ?o ?ob] a(1) by (simp add: submitted_def)
    with assms(2) have "list_all (\<lambda>t. buyer_id t \<noteq> ident ?a \<and> seller_id t = ident ?a) ?ts"
      by (auto simp: list_all_iff)
    then show ?thesis using False a hd by (simp add: foldl_apply_trade_seller)
  qed
qed

theorem C3_submitting_agent_ledger_witness:
  "list_all (\<lambda>t. buyer_id t \<noteq> seller_id t)
     (submitted (new_agent 1) taking_buy
        ((OrderBook_init 100)\<lparr>sell_orders := [resting_sell\<lparr>order_id := 1\<rparr>],
           next_order_id := 2\<rparr>))
   \<and> position (hd (fst (agents_loop [new_agent 1] [Some taking_buy]
        ((OrderBook_init 100)\<lparr>sell_orders := [resting_sell\<lparr>order_id := 1\<rparr>],
           next_order_id := 2\<rparr>) []))) = 10
   \<and> balance (hd (fst (agents_loop [new_agent 1] [Some taking_buy]
        ((OrderBook_init 100)\<lparr>sell_orders := [resting_sell\<lparr>order_id := 1\<rparr>],
           next_order_id := 2\<rparr>) []))) = 9000"
proof -
  let ?ob = "(OrderBook_init 100)\<lparr>sell_orders := [resting_sell\<lparr>order_id := 1\<rparr>],
    next_order_id := 2\<rparr>"
  let ?R = "agents_loop [new_agent 1] [Some taking_buy] ?ob []"
  have e: "?R = (fst ?R, fst (snd ?R), snd (snd ?R))" by simp
  have h: "list_all (\<lambda>t. buyer_id t \<noteq> seller_id t) (submitted (new_agent 1) taking_buy ?ob)"
    unfolding submitted_taking_buy by simp
  from C3_submitting_agent_ledger[OF e h] h show ?thesis
    unfolding submitted_taking_buy
    by (simp add: taking_buy_def new_agent_def traded_quantity_def traded_value_def)
qed

subsection \<open>C4: the worked example\<close>

text \<open>
  C4. From an empty book with initial price 100, after \<^verbatim>\<open>Sell 10@99\<close> and
  \<^verbatim>\<open>Sell 10@101\<close>, the order \<^verbatim>\<open>Buy 15@100\<close> yields exactly one trade, at price 99 for
  quantity 10; the remaining 5 rest in the buy book at 100, the sell book holds only
  \<^verbatim>\<open>10@101\<close>, and afterwards the best bid is 100, the best ask 101 and the spread 1.
  This holds for \<^verbatim>\<open>OrderBook\<close> and for \<^verbatim>\<open>OrderBookService\<close>.
\<close>

theorem C4_example:
  "map (\<lambda>t. (trade_price t, trade_quantity t)) (fst (OrderBook_add_order example_book buy_100))
     = [(99, 10)]
   \<and> map (\<lambda>r. (price r, quantity r))
        (buy_orders (snd (OrderBook_add_order example_book buy_100))) = [(100, 5)]
   \<and> map (\<lambda>r. (price r, quantity r))
        (sell_orders (snd (OrderBook_add_order example_book buy_100))) = [(101, 10)]
   \<and> fst (get_best_bid (snd (OrderBook_add_order example_book buy_100))) = Some 100
   \<and> fst (get_best_ask (snd (OrderBook_add_order example_book buy_100))) = Some 101
   \<and> fst (get_spread (snd (OrderBook_add_order example_book buy_100))) = Some 1
   \<and> map_sum id (map (\<lambda>t. (trade_price t, trade_quantity t)))
        (fst (OrderBookService_add_order example_service buy_100)) = Inr [(99, 10)]
   \<and> map (\<lambda>r. (price r, quantity r))
        (buy_orders (snd (OrderBookService_add_order example_service buy_100))) = [(100, 5)]
   \<and> map (\<lambda>r. (price r, quantity r))
        (sell_orders (snd (OrderBookService_add_order example_service buy_100))) = [(101, 10)]
   \<and> fst (get_best_bid (snd (OrderBookService_add_order example_service buy_100))) = Some 100
   \<and> fst (get_best_ask (snd (OrderBookService_add_order example_service buy_100))) = Some 101
   \<and> fst (get_spread (snd (OrderBookService_add_order example_service buy_100))) = Some 1"
  unfolding example_book_result example_service_result
  by (simp add: order_defs query_defs OrderBook_init_def OrderBookService_init_def)

subsection \<open>C5: price-time priority of the books\<close>

text \<open>
  C5. After every addOrder call the buy book is ordered by price descending and the sell
  book by price ascending, orders of equal price standing in the order of their arrival:
  when both books are sorted in this way and the incoming order carries a time stamp not
  earlier than those of the resting orders, both books are sorted in this way after the
  call, for \<^verbatim>\<open>OrderBook.add_order\<close> (append and stable sort) and for
  \<^verbatim>\<open>OrderBookService.add_order\<close> (insertion before the first strictly worse price), also
  when the call of the service raises.
\<close>

theorem C5_price_time_priority:
  assumes "book_sorted b" and "arrives_last b order"
    and "book_sorted sb" and "arrives_last sb order"
  shows "book_sorted (snd (OrderBook_add_order b order))
       \<and> book_sorted (snd (OrderBookService_add_order sb order))"
  using assms
  by (simp add: book_sorted_OrderBook_add_order book_sorted_OrderBookService_add_order)

text \<open>An instance with a tie: \<^verbatim>\<open>Buy 15@100\<close> rests, a later \<^verbatim>\<open>Buy 7@100\<close> is
  placed behind it.\<close>

theorem C5_price_time_priority_witness:
  "book_sorted bid_book \<and> arrives_last bid_book later_buy
   \<and> book_sorted bid_service \<and> arrives_last bid_service later_buy
   \<and> book_sorted (snd (OrderBook_add_order bid_book later_buy))
   \<and> book_sorted (snd (OrderBookService_add_order bid_service later_buy))
   \<and> buy_orders (snd (OrderBook_add_order bid_book later_buy)) = [buy_100, later_buy]
   \<and> buy_orders (snd (OrderBookService_add_order bid_service later_buy))
       = [buy_100, later_buy]"
proof -
  have h: "book_sorted bid_book" "arrives_last bid_book later_buy"
    "book_sorted bid_service" "arrives_last bid_service later_buy"
    unfolding bid_book_eq bid_service_eq
    by (simp_all add: book_sorted_def arrives_last_def buy_before_def sell_before_def
        order_defs later_buy_def OrderBook_init_def OrderBookService_init_def)
  have r: "buy_orders (snd (OrderBook_add_order bid_book later_buy)) = [buy_100, later_buy]"
    "buy_orders (snd (OrderBookService_add_order bid_service later_buy))
       = [buy_100, later_buy]"
    unfolding bid_book_eq bid_service_eq
    by (simp_all add: order_defs later_buy_def book_eval service_eval)
  from C5_price_time_priority[OF h] h r show ?thesis by simp
qed

subsection \<open>C6: eviction from the history buffers\<close>

text \<open>
  C6, as stated: every history buffer that exceeds its cap after an append is cut to its
  trailing half, not to the full cap. \<^verbatim>\<open>TradingSimulator._update_statistics\<close> of
  \<^verbatim>\<open>simulator.py\<close> cuts to the full cap: a price history of 1000 entries has 1000
  entries again after the next cycle. (In \<^verbatim>\<open>SimulationService\<close> a cap of 1 gives
  \<^verbatim>\<open>keep_size = 0\<close>, and the slice \<^verbatim>\<open>[-0:]\<close> keeps the whole buffer.)
\<close>

theorem C6_counterexample:
  "length (sim_price_history full_simulator) = 1000
   \<and> length (sim_price_history (update_statistics full_simulator [])) = 1000
   \<and> max_history_size (config tiny_service) = 1
   \<and> price_history tiny_service = [100]
   \<and> price_history (update_price tiny_service 101) = [100, 101]"
  by (simp add: full_simulator_length)
     (simp add: full_simulator_def default_simulator_def tiny_service_def default_service_def
        default_config_def update_price_def limit_history_def slice_last_def Let_def)

text \<open>
  C6, amended: in \<^verbatim>\<open>SimulationService\<close>, with a cap \<^verbatim>\<open>max_history_size\<close> of at least 2,
  each of the four buffers (price, volume, trade count, spread) is, after an append that
  makes it longer than the cap, its trailing half: the last \<open>cap div 2\<close> entries; an append
  that does not exceed the cap leaves the buffer with the new entry at its end.
\<close>

theorem C6_service_trailing_half:
  assumes "2 \<le> max_history_size (config s)"
  shows "price_history (update_price s p)
           = capped_append (max_history_size (config s)) (price_history s) p
    \<and> volume_history (update_volume s v)
           = capped_append (max_history_size (config s)) (volume_history s) v
    \<and> trade_count_history (update_trade_count s c)
           = capped_append (max_history_size (config s)) (trade_count_history s) c
    \<and> spread_history (update_spread s d)
           = capped_append (max_history_size (config s)) (spread_history s) d"
  using assms
  by (simp add: update_price_def update_volume_def update_trade_count_def update_spread_def
      limit_history_trailing)

theorem C6_service_trailing_half_witness:
  "2 \<le> max_history_size (config small_service)
   \<and> price_history (update_price small_service 104) = [103, 104]
   \<and> volume_history (update_volume small_service 8) = [7, 8]
   \<and> trade_count_history (update_trade_count small_service 2) = [1, 2]
   \<and> spread_history (update_spread small_service 3) = [2, 3]"
  using C6_service_trailing_half[of small_service 104 8 2 3]
  by (simp add: small_service_def default_service_def default_config_def capped_append_def
      trailing_def)

subsection \<open>C7: volatility\<close>

text \<open>
  C7, as stated: the volatility of a price history with at least two entries is the mean
  absolute return over at most the last five prices, doubled and clamped to
  \<open>[0.005, 0.05]\<close>. \<^verbatim>\<open>TradingSimulator._calculate_volatility\<close> of \<^verbatim>\<open>simulator.py\<close>
  computes the standard deviation of the returns over the last ten prices instead: for the
  history \<open>[100, 110]\<close> it returns 0.005, the formula of the claim gives 0.05.
\<close>

theorem C7_counterexample:
  "sim_calculate_volatility rising_simulator = Inr 0.005
   \<and> spec_volatility (sim_price_history rising_simulator) = 0.05"
  by (simp add: sim_calculate_volatility_def rising_simulator_def default_simulator_def
      slice_last_def Let_def spec_volatility_def trailing_def step_returns_def mean_def
      clamp_def)

text \<open>
  C7, amended: \<^verbatim>\<open>SimulationService.calculate_volatility\<close> returns, for a history of at
  least two positive prices, the mean absolute return over at most the last five prices,
  doubled and clamped to \<open>[0.005, 0.05]\<close>, and the fixed value 0.01 when
  \<^verbatim>\<open>skip_volatility_calculation\<close> is set.
\<close>

theorem C7_service_volatility:
  assumes "2 \<le> length (price_history s)" and "list_all (\<lambda>p. 0 < p) (price_history s)"
  shows "calculate_volatility s =
     Inr (if skip_volatility_calculation (config s) then 0.01
          else spec_volatility (price_history s))"
proof -
  let ?r = "trailing 5 (price_history s)"
  have len: "2 \<le> length ?r" using assms(1) by (simp add: trailing_def)
  have pc: "price_changes ?r = Inr (step_returns ?r)"
    using assms(2) by (intro price_changes_returns list_all_trailing)
  have ne: "step_returns ?r \<noteq> []"
    using len length_step_returns[of ?r] by (cases "step_returns ?r") auto
  show ?thesis
    using assms(1) len pc ne
    by (simp add: calculate_volatility_def slice_last_trailing Let_def spec_volatility_def
        mean_def clamp_max_min mult.commute)
qed

theorem C7_service_volatility_witness:
  "2 \<le> length (price_history rising_service)
   \<and> list_all (\<lambda>p. 0 < p) (price_history rising_service)
   \<and> calculate_volatility rising_service = Inr 0.05
   \<and> calculate_volatility
        (rising_service\<lparr>config := default_config\<lparr>skip_volatility_calculation := True\<rparr>\<rparr>)
       = Inr 0.01"
  using C7_service_volatility[of rising_service]
    C7_service_volatility[of
      "rising_service\<lparr>config := default_config\<lparr>skip_volatility_calculation := True\<rparr>\<rparr>"]
  by (simp add: rising_service_def default_service_def default_config_def spec_volatility_def
      trailing_def step_returns_def mean_def clamp_def)

subsection \<open>C8: configuration setters\<close>

text \<open>
  C8, as stated: a call of a setter with a value outside its range is rejected with an
  error and changes nothing, rather than being clamped. The setters clamp: with 50 cycles
  stored, \<^verbatim>\<open>set_avg_spread_cycles(0)\<close> stores 1; with 100 cycles and amount 1000 stored,
  \<^verbatim>\<open>set_balance_increase_settings(20000, -5)\<close> stores 10000 and 0.
\<close>

theorem C8_setters_clamp_counterexample:
  "avg_spread_cycles (coordinator_config (set_avg_spread_cycles default_coordinator 0)) = 1
   \<and> avg_spread_cycles (coordinator_config default_coordinator) = 50
   \<and> balance_increase_cycles
        (coordinator_config (set_balance_increase_settings default_coordinator 20000 (- 5)))
       = 10000
   \<and> balance_increase_amount
        (coordinator_config (set_balance_increase_settings default_coordinator 20000 (- 5)))
       = 0
   \<and> balance_increase_cycles (coordinator_config default_coordinator) = 100
   \<and> balance_increase_amount (coordinator_config default_coordinator) = 1000"
  by (simp add: set_avg_spread_cycles_def set_balance_increase_settings_def store_config_def
      default_coordinator_def default_config_def)

text \<open>
  C8, amended: the setters of both simulators never fail; they store the cycles clamped
  into \<open>[1, 10000]\<close> (balance increase) or \<open>[1, 1000]\<close> (average spread) and the amount
  raised to at least 0, and change nothing else. The range check that rejects a value is
  in the dialogs of the window: a parsed number outside \<open>[1, 1000]\<close>, or outside
  \<open>[1, 10000]\<close> with an amount outside \<open>[0, 100000]\<close>, gets the out-of-range notice and
  leaves the simulator as it was; a value in range is stored as it is.
\<close>

theorem C8_setters_clamp:
  "set_avg_spread_cycles t cycles =
     store_config t ((coordinator_config t)
       \<lparr>avg_spread_cycles :=
          (if cycles < 1 then 1 else if cycles > 1000 then 1000 else cycles)\<rparr>)
   \<and> set_balance_increase_settings t cycles amount =
     store_config t ((coordinator_config t)
       \<lparr>balance_increase_cycles :=
          (if cycles < 1 then 1 else if cycles > 10000 then 10000 else cycles),
        balance_increase_amount := (if amount < 0 then 0 else amount)\<rparr>)
   \<and> sim_set_avg_spread_cycles s cycles =
     s\<lparr>sim_avg_spread_cycles :=
         (if cycles < 1 then 1 else if cycles > 1000 then 1000 else cycles)\<rparr>
   \<and> sim_set_balance_increase_settings s cycles amount =
     s\<lparr>sim_balance_increase_cycles :=
          (if cycles < 1 then 1 else if cycles > 10000 then 10000 else cycles),
       sim_balance_increase_amount := (if amount < 0 then 0 else amount)\<rparr>
   \<and> show_spread_cycles_dialog s (Parsed cycles) =
     (if cycles < 1 \<or> cycles > 1000 then (Some OutOfRange, s)
      else (None, s\<lparr>sim_avg_spread_cycles := cycles\<rparr>))
   \<and> show_balance_increase_dialog s (Parsed cycles) (Parsed amount) =
     (if cycles < 1 \<or> cycles > 10000 \<or> amount < 0 \<or> amount > 100000
      then (Some OutOfRange, s)
      else (None, s\<lparr>sim_balance_increase_cycles := cycles,
                     sim_balance_increase_amount := amount\<rparr>))"
  by (auto simp add: set_avg_spread_cycles_def set_balance_increase_settings_def
      sim_set_avg_spread_cycles_def sim_set_balance_increase_settings_def
      show_spread_cycles_dialog_def show_balance_increase_dialog_def max_def min_def)

subsection \<open>C9: conservation of quantity\<close>

text \<open>
  C9. For every addOrder call with a valid order on a book of valid resting orders, the
  quantity of the incoming order is the sum of the quantities of the emitted trades plus
  the quantity of the remainder that is rested in the book (zero, and nothing rested, when
  the order is filled); each matched resting order is reduced by exactly its trade
  quantity and is removed from its book exactly when nothing of it remains. The call of
  \<^verbatim>\<open>OrderBookService.add_order\<close> returns its trades (it does not raise), and the book is
  again one of valid resting orders.
\<close>

theorem C9_quantity_conservation:
  assumes "valid_order order" and "valid_book b" and "valid_book sb"
  shows "conserves order b (fst (OrderBook_add_order b order))
           (snd (OrderBook_add_order b order))
       \<and> valid_book (snd (OrderBook_add_order b order))
       \<and> (case fst (OrderBookService_add_order sb order) of
            Inl e \<Rightarrow> False
          | Inr ts \<Rightarrow> conserves order sb ts (snd (OrderBookService_add_order sb order)))
       \<and> valid_book (snd (OrderBookService_add_order sb order))"
proof -
  from assms(1) have "0 \<le> quantity order" by (simp add: valid_order_def)
  then have "conserves order b (fst (OrderBook_add_order b order))
      (snd (OrderBook_add_order b order))"
    by (rule conserves_OrderBook_add_order)
  moreover have "valid_book (snd (OrderBook_add_order b order))"
    using assms(1,2) by (rule valid_book_OrderBook_add_order)
  moreover from OrderBookService_add_order_valid[OF assms(1,3)]
  have "(case fst (OrderBookService_add_order sb order) of
            Inl e \<Rightarrow> False
          | Inr ts \<Rightarrow> conserves order sb ts (snd (OrderBookService_add_order sb order)))
       \<and> valid_book (snd (OrderBookService_add_order sb order))"
    by auto
  ultimately show ?thesis by simp
qed

text \<open>An instance, the worked example: \<^verbatim>\<open>Buy 15@100\<close> takes the 10 of \<^verbatim>\<open>Sell 10@99\<close>,
  passes \<^verbatim>\<open>Sell 10@101\<close> over and rests with 5.\<close>

theorem C9_quantity_conservation_witness:
  "valid_order buy_100 \<and> valid_book example_book \<and> valid_book example_service
   \<and> planned_fills buy_100 example_book = [Some 10, None]
   \<and> remainder buy_100 example_book = 5
   \<and> conserves buy_100 example_book (fst (OrderBook_add_order example_book buy_100))
        (snd (OrderBook_add_order example_book buy_100))
   \<and> valid_book (snd (OrderBook_add_order example_book buy_100))
   \<and> (case fst (OrderBookService_add_order example_service buy_100) of
        Inl e \<Rightarrow> False
      | Inr ts \<Rightarrow> conserves buy_100 example_service ts
                    (snd (OrderBookService_add_order example_service buy_100)))
   \<and> valid_book (snd (OrderBookService_add_order example_service buy_100))"
proof -
  have h: "valid_order buy_100" "valid_book example_book" "valid_book example_service"
    unfolding example_book_eq example_service_eq
    by (simp_all add: valid_order_def valid_book_def valid_resting_def order_defs
        OrderBook_init_def OrderBookService_init_def)
  have f: "planned_fills buy_100 example_book = [Some 10, None]"
    "remainder buy_100 example_book = 5"
    unfolding example_book_eq
    by (simp_all add: planned_fills_def remainder_def crosses_def opposing_orders_def
        order_defs OrderBook_init_def)
  from C9_quantity_conservation[OF h] h f show ?thesis by simp
qed

subsection \<open>C10: the current price\<close>

text \<open>
  C10. addOrder leaves the current price unchanged when it emits no trades and otherwise
  sets it to the price of the last trade it emitted; the queries for the best bid, the
  best ask, the spread and the order-book data return the book they were given: they
  change neither the current price nor a book. A call of \<^verbatim>\<open>OrderBookService.add_order\<close>
  that raises emits no trades and leaves the current price as it was.
\<close>

theorem C10_current_price_and_queries:
  "current_price (snd (OrderBook_add_order b order)) =
     (if fst (OrderBook_add_order b order) = [] then current_price b
      else trade_price (last (fst (OrderBook_add_order b order))))
   \<and> current_price (snd (OrderBookService_add_order sb order)) =
     (case fst (OrderBookService_add_order sb order) of
        Inl e \<Rightarrow> current_price sb
      | Inr ts \<Rightarrow> if ts = [] then current_price sb else trade_price (last ts))
   \<and> snd (get_best_bid b) = b \<and> snd (get_best_ask b) = b \<and> snd (get_spread b) = b
   \<and> snd (get_order_book_data b levels) = b
   \<and> snd (get_best_bid sb) = sb \<and> snd (get_best_ask sb) = sb \<and> snd (get_spread sb) = sb
   \<and> snd (OrderBookService_get_order_book_data sb levels) = sb"
  using OrderBook_add_order_current_price[of b order]
    OrderBookService_add_order_current_price[of sb order]
  by (simp add: get_best_bid_def get_best_ask_def get_spread_def get_order_book_data_def
      OrderBookService_get_order_book_data_def Let_def)

end
